theory Spec2Isabelle
  imports Main "HOL-Library.Word"
begin

unbundle bit_operations_syntax

section \<open>AStack: a shallow embedding of astack.cpp\<close>

text \<open>
  The agent is one C++ file. Its pure helpers (\<open>fixClassSignature\<close>, \<open>getLineNumber\<close>,
  \<open>threadStateEnum\<close>) become HOL functions; the JVMTI queries they call are fields of an
  environment record \<open>jvm\<close>, each returning \<open>None\<close> where the C call returns an error
  code other than \<open>JVMTI_ERROR_NONE\<close>. The globals (\<open>x_trace\<close> with \<open>x_frames\<close>,
  \<open>x_trace_running\<close>, \<open>x_trace_lock\<close>, \<open>port\<close>) are a state record \<open>agent\<close> that
  \<open>signalHandler\<close>, \<open>printThreadDump\<close>, \<open>dumpThread\<close>, \<open>handleClient\<close> and
  \<open>Agent_OnLoad\<close> take and return, together with the sequence of their outside effects.
  \<open>Deallocate\<close> and \<open>DeleteLocalRef\<close> have no effect that these functions can observe
  and are left out. The socket loop (\<open>serverSocket\<close>, \<open>worker\<close>) and the JVMTI callbacks
  (\<open>onVmInit\<close>, \<open>onThreadStart\<close>, \<open>onThreadEnd\<close>, class events) are not modelled.
\<close>

subsection \<open>Types and constants\<close>

type_synonym jint = int
type_synonym jlocation = int
type_synonym jmethodID = nat
type_synonym jclass = nat
type_synonym jthread = nat
type_synonym pthread_t = nat
type_synonym JNIEnv = nat

text \<open>
  \<open>jint\<close> is a 32-bit and \<open>jlocation\<close> a 64-bit signed integer. They are modelled as
  \<open>int\<close>; the narrowing conversions of the file (\<open>return target\<close> in \<open>getLineNumber\<close>,
  from \<open>jlocation\<close> to \<open>jint\<close>, and the store of \<open>%d\<close> into the \<open>int\<close> \<open>port\<close>) are
  written out as \<open>to_jint\<close>.
\<close>

definition to_jint :: "int \<Rightarrow> jint" where
  "to_jint x = signed_take_bit 31 x"

record AsyncCallFrame =
  lineno :: jint
  method_id :: jmethodID

text \<open>
  \<open>x_trace.frames\<close> only ever points to the static array \<open>x_frames\<close>, so the field
  \<open>frames\<close> holds the contents of that array. The field \<open>method\<close> of a frame is
  \<open>method_id\<close> here.
\<close>

record AsyncCallTrace =
  trace_jni :: JNIEnv
  num_frames :: jint
  frames :: "AsyncCallFrame list"

record ThreadTag =
  tag_jni :: JNIEnv
  thread_id :: pthread_t

record jvmtiLineNumberEntry =
  start_location :: jlocation
  line_number :: jint

record jvmtiThreadInfo =
  name :: string
  priority :: jint
  is_daemon :: bool

definition NATIVE_METHOD_LINENO :: jint where
  "NATIVE_METHOD_LINENO = - 3"

definition MAX_FRAMES :: nat where
  "MAX_FRAMES = 128"

text \<open>The thread-state bits of \<open>jvmti.h\<close> (the header is not part of the repository).\<close>

definition JVMTI_THREAD_STATE_ALIVE :: "32 word" where
  "JVMTI_THREAD_STATE_ALIVE = 0x0001"
definition JVMTI_THREAD_STATE_TERMINATED :: "32 word" where
  "JVMTI_THREAD_STATE_TERMINATED = 0x0002"
definition JVMTI_THREAD_STATE_RUNNABLE :: "32 word" where
  "JVMTI_THREAD_STATE_RUNNABLE = 0x0004"
definition JVMTI_THREAD_STATE_WAITING_INDEFINITELY :: "32 word" where
  "JVMTI_THREAD_STATE_WAITING_INDEFINITELY = 0x0010"
definition JVMTI_THREAD_STATE_WAITING_WITH_TIMEOUT :: "32 word" where
  "JVMTI_THREAD_STATE_WAITING_WITH_TIMEOUT = 0x0020"
definition JVMTI_THREAD_STATE_SLEEPING :: "32 word" where
  "JVMTI_THREAD_STATE_SLEEPING = 0x0040"
definition JVMTI_THREAD_STATE_IN_OBJECT_WAIT :: "32 word" where
  "JVMTI_THREAD_STATE_IN_OBJECT_WAIT = 0x0100"
definition JVMTI_THREAD_STATE_PARKED :: "32 word" where
  "JVMTI_THREAD_STATE_PARKED = 0x0200"
definition JVMTI_THREAD_STATE_BLOCKED_ON_MONITOR_ENTER :: "32 word" where
  "JVMTI_THREAD_STATE_BLOCKED_ON_MONITOR_ENTER = 0x0400"

text \<open>The C test \<open>state & MASK\<close> in a condition: some bit of the mask is set.\<close>

definition has_bits :: "32 word \<Rightarrow> 32 word \<Rightarrow> bool" where
  "has_bits state bits = (state AND bits \<noteq> 0)"

subsection \<open>The JVM as an environment\<close>

record jvm =
  GetMethodName :: "jmethodID \<Rightarrow> string option"
  GetMethodDeclaringClass :: "jmethodID \<Rightarrow> jclass option"
  GetClassSignature :: "jclass \<Rightarrow> string option"
  GetSourceFileName :: "jclass \<Rightarrow> string option"
  GetLineNumberTable :: "jmethodID \<Rightarrow> jvmtiLineNumberEntry list option"
  GetThreadState :: "jthread \<Rightarrow> 32 word option"
  GetThreadInfo :: "jthread \<Rightarrow> jvmtiThreadInfo option"
  GetTag_ok :: "jthread \<Rightarrow> bool"
  GetAllThreads :: "int + jthread list"
  AsyncGetCallTrace :: "JNIEnv \<Rightarrow> nat \<Rightarrow> pthread_t \<Rightarrow> jint \<times> AsyncCallFrame list"
  handler_delay :: "jthread \<Rightarrow> pthread_t \<Rightarrow> nat option"

text \<open>
  \<^item> \<open>GetTag_ok\<close>: whether \<open>GetTag\<close> on the thread returns \<open>JVMTI_ERROR_NONE\<close>; the tag
    itself is in the agent's state (\<open>tags\<close>).
  \<^item> \<open>GetAllThreads\<close>: \<open>Inl err\<close> for an error code, \<open>Inr threads\<close> otherwise.
  \<^item> \<open>AsyncGetCallTrace jni depth t\<close>: what the stack walker deposits when it runs in the
    signal handler on thread \<open>t\<close> with \<open>trace->jni = jni\<close>: the value of \<open>num_frames\<close>
    and the frames it writes at the start of the buffer (at most \<open>depth\<close> of them).
  \<^item> \<open>handler_delay thread t\<close>: the scheduling of signal handlers while \<open>dumpThread\<close>
    works on \<open>thread\<close>. It applies to every thread \<open>t\<close> with a pending \<open>SIGSTACK\<close>, the one
    signalled by this request and those signalled by earlier requests that timed out.
    \<open>Some 0\<close>: the handler on \<open>t\<close> runs at once, before \<open>pthread_kill\<close> of this request
    returns. \<open>Some k\<close> with \<open>k > 0\<close>: it runs after \<open>k\<close> polls of the spin loop have found
    the flag set. \<open>None\<close>: it does not run during this request and stays pending.
    Handlers run only at these points; the model has no handler run between two requests
    or while \<open>printThreadDump\<close> writes.
\<close>

subsection \<open>fixClassSignature\<close>

text \<open>
  The C string is a \<open>char list\<close> without its terminating NUL. The function edits the
  buffer in place; the model returns the new contents. \<open>memmove(s, s + 1, len - 2)\<close>
  followed by \<open>s[len - 2] = 0\<close> leaves characters \<open>1 .. len - 2\<close> of the old string.
\<close>

definition fixClassSignature :: "string \<Rightarrow> string" where
  "fixClassSignature s =
     (let len = length s in
      if len \<le> 2 \<or> s ! 0 \<noteq> CHR ''L'' \<or> s ! (len - 1) \<noteq> CHR '';'' then s
      else map (\<lambda>c. if c = CHR ''/'' then CHR ''.'' else c) (take (len - 2) (drop 1 s)))"

subsection \<open>getLineNumber\<close>

text \<open>
  The \<open>for\<close> loop of \<open>getLineNumber\<close>, from index \<open>i\<close> on, with the current values of
  \<open>last\<close> (here \<open>last_loc\<close>) and \<open>line_number\<close> (which is \<open>-1\<close> while the loop runs). It returns both
  variables as they are when the loop ends or breaks. \<open>count\<close> is the length of the table.
\<close>

function scan_table :: "jvmtiLineNumberEntry list \<Rightarrow> jlocation \<Rightarrow> nat \<Rightarrow> jlocation \<Rightarrow> jint \<times> jlocation" where
  "scan_table table target i last_loc =
     (if i < length table then
        (if target < start_location (table ! i) \<and> target \<ge> last_loc
         then (line_number (table ! (i - 1)), last_loc)
         else scan_table table target (i + 1) (start_location (table ! i)))
      else (- 1, last_loc))"
  by pat_completeness auto
termination
  by (relation "measure (\<lambda>(table, target, i, last_loc). length table - i)") auto

declare scan_table.simps [simp del]

definition getLineNumber :: "jvm \<Rightarrow> jmethodID \<Rightarrow> jlocation \<Rightarrow> jint" where
  "getLineNumber env m target =
     (if target < 0 then to_jint target
      else case GetLineNumberTable env m of
        None \<Rightarrow> - 1
      | Some table \<Rightarrow>
          (if length table = 1 then line_number (table ! 0)
           else if length table > 1 then
             (let (line, last_loc) = scan_table table target 1 (start_location (table ! 0)) in
              if line = - 1 \<and> target \<ge> last_loc then line_number (table ! (length table - 1))
              else line)
           else - 1))"

subsection \<open>threadStateEnum\<close>

definition threadStateEnum :: "32 word \<Rightarrow> string" where
  "threadStateEnum state =
     (if has_bits state JVMTI_THREAD_STATE_ALIVE then
        (if has_bits state JVMTI_THREAD_STATE_RUNNABLE then ''RUNNABLE''
         else if has_bits state JVMTI_THREAD_STATE_BLOCKED_ON_MONITOR_ENTER
           then ''BLOCKED (on object monitor)''
         else if has_bits state JVMTI_THREAD_STATE_WAITING_INDEFINITELY then
           (if has_bits state JVMTI_THREAD_STATE_IN_OBJECT_WAIT then ''WAITING (on object monitor)''
            else if has_bits state JVMTI_THREAD_STATE_PARKED then ''WAITING (parking)''
            else ''WAITING'')
         else if has_bits state JVMTI_THREAD_STATE_WAITING_WITH_TIMEOUT then
           (if has_bits state JVMTI_THREAD_STATE_IN_OBJECT_WAIT
              then ''TIMED_WAITING (on object monitor)''
            else if has_bits state JVMTI_THREAD_STATE_PARKED then ''TIMED_WAITING (parking)''
            else if has_bits state JVMTI_THREAD_STATE_SLEEPING then ''TIMED_WAITING (sleeping)''
            else ''TIMED_WAITING'')
         else ''UNKNOWN'')
      else if has_bits state JVMTI_THREAD_STATE_TERMINATED then ''TERMINATED''
      else ''NEW'')"


subsection \<open>printCallFrame\<close>

definition TAB :: string where
  "TAB = [CHR 0x09]"

definition NL :: string where
  "NL = [CHR 0x0A]"

text \<open>The conversion \<open>%d\<close> of \<open>printf\<close>.\<close>

fun show_nat :: "nat \<Rightarrow> string" where
  "show_nat n =
     (if n < 10 then [''0123456789'' ! n]
      else show_nat (n div 10) @ [''0123456789'' ! (n mod 10)])"

declare show_nat.simps [simp del]

definition printf_d :: "int \<Rightarrow> string" where
  "printf_d i = (if i < 0 then CHR ''-'' # show_nat (nat (- i)) else show_nat (nat i))"

text \<open>
  \<open>printCallFrame\<close> makes one \<open>fprintf\<close> call; the model returns the text of that call.
  A \<open>char *\<close> that is \<open>nullptr\<close> is \<open>None\<close>. The parameter \<open>lineno\<close> and the local
  \<open>line_number\<close> are \<open>lineno_arg\<close> and \<open>line\<close> here (the other names are record fields).
\<close>

definition printCallFrame :: "jvm \<Rightarrow> jmethodID \<Rightarrow> jint \<Rightarrow> string" where
  "printCallFrame env m lineno_arg =
     (let method_name = GetMethodName env m;
          (class_name, source_name) =
            (case GetMethodDeclaringClass env m of
               None \<Rightarrow> (None, None)
             | Some clazz \<Rightarrow>
                 (map_option fixClassSignature (GetClassSignature env clazz),
                  GetSourceFileName env clazz));
          line = getLineNumber env m lineno_arg;
          class_text = (case class_name of None \<Rightarrow> ''Unknown'' | Some c \<Rightarrow> c);
          method_text = (case method_name of None \<Rightarrow> ''Unknown'' | Some n \<Rightarrow> n)
      in if line = NATIVE_METHOD_LINENO then
           TAB @ ''at '' @ class_text @ ''.'' @ method_text @ ''(Native Method)'' @ NL
         else case source_name of
           None \<Rightarrow> TAB @ ''at '' @ class_text @ ''.'' @ method_text @ ''(Unknown Source)'' @ NL
         | Some src \<Rightarrow>
             if line \<le> 0 then
               TAB @ ''at '' @ class_text @ ''.'' @ method_text @ ''('' @ src @ '')'' @ NL
             else
               TAB @ ''at '' @ class_text @ ''.'' @ method_text @ ''('' @ src @ '':'' @
                 printf_d line @ '')'' @ NL)"

subsection \<open>The agent's state\<close>

text \<open>
  Every call with an effect outside the agent is recorded, in order, in \<open>events\<close>:
  entering and leaving the raw monitor \<open>x_trace_lock\<close>, \<open>pthread_kill\<close> with \<open>SIGSTACK\<close>,
  and each \<open>fprintf\<close> to the client's stream (\<open>Out\<close>) and to \<open>stderr\<close> (\<open>Err\<close>).
\<close>

datatype event =
  RawMonitorEnter
| RawMonitorExit
| Pthread_kill pthread_t
| Out string
| Err string

text \<open>
  \<open>x_trace_lock\<close> counts how often the worker holds the (recursive) raw monitor.
  \<open>tags\<close> is the JVMTI tag of each thread object: the \<open>ThreadTag\<close> that \<open>onThreadStart\<close>
  attached, or \<open>None\<close> for the null tag. \<open>pending\<close> holds the threads to which \<open>SIGSTACK\<close>
  was sent and whose handler has not run yet; \<open>SIGSTACK\<close> is a standard signal, so a
  thread has at most one pending instance.
\<close>

record agent =
  x_trace :: AsyncCallTrace
  x_trace_running :: bool
  x_trace_lock :: nat
  port :: jint
  tags :: "jthread \<Rightarrow> ThreadTag option"
  pending :: "pthread_t list"
  events :: "event list"

definition emit :: "event \<Rightarrow> agent \<Rightarrow> agent" where
  "emit e s = s\<lparr>events := events s @ [e]\<rparr>"

definition RawMonitorEnter_lock :: "agent \<Rightarrow> agent" where
  "RawMonitorEnter_lock s = emit RawMonitorEnter (s\<lparr>x_trace_lock := x_trace_lock s + 1\<rparr>)"

definition RawMonitorExit_lock :: "agent \<Rightarrow> agent" where
  "RawMonitorExit_lock s = emit RawMonitorExit (s\<lparr>x_trace_lock := x_trace_lock s - 1\<rparr>)"

subsection \<open>signalHandler\<close>

text \<open>The walker overwrites the start of the buffer and leaves the rest as it was.\<close>

definition store_frames :: "AsyncCallFrame list \<Rightarrow> AsyncCallFrame list \<Rightarrow> AsyncCallFrame list" where
  "store_frames fs buf = fs @ drop (length fs) buf"

definition signalHandler :: "jvm \<Rightarrow> pthread_t \<Rightarrow> agent \<Rightarrow> agent" where
  "signalHandler env t s =
     (let (n, fs) = AsyncGetCallTrace env (trace_jni (x_trace s)) MAX_FRAMES t;
          s1 = s\<lparr>x_trace := (x_trace s)\<lparr>num_frames := n,
                    frames := store_frames (take MAX_FRAMES fs) (frames (x_trace s))\<rparr>\<rparr>
      in s1\<lparr>x_trace_running := False\<rparr>)"

subsection \<open>printThreadDump\<close>

text \<open>
  The loop reads \<open>x_trace.frames[i]\<close> for \<open>i < x_trace.num_frames\<close> from the global
  \<open>x_trace\<close>. The walker never reports more frames than the depth it was given, which is
  the size of \<open>x_frames\<close>, so the reads are the first \<open>num_frames\<close> entries of the buffer.
\<close>

definition thread_header :: "jvmtiThreadInfo \<Rightarrow> 32 word \<Rightarrow> string" where
  "thread_header info state =
     [CHR 0x22] @ name info @ [CHR 0x22] @ (if is_daemon info then '' daemon'' else []) @
     '' prio='' @ printf_d (priority info) @ NL @
     ''  java.lang.Thread.Stage: '' @ threadStateEnum state @ NL"

definition printThreadDump :: "jvm \<Rightarrow> jthread \<Rightarrow> agent \<Rightarrow> agent" where
  "printThreadDump env thread s =
     (let s1 = (case GetThreadState env thread of
                  None \<Rightarrow> s
                | Some state \<Rightarrow>
                    (case GetThreadInfo env thread of
                       None \<Rightarrow> s
                     | Some info \<Rightarrow> emit (Out (thread_header info state)) s));
          s2 = fold (\<lambda>frame. emit (Out (printCallFrame env (method_id frame) (lineno frame))))
                 (take (nat (num_frames (x_trace s1))) (frames (x_trace s1))) s1
      in emit (Out NL) s2)"

subsection \<open>dumpThread\<close>

definition SPIN_LIMIT :: nat where
  "SPIN_LIMIT = 100 * 1000 * 1000"

text \<open>
  The handlers that are due at tick \<open>k\<close> of the request for \<open>thread\<close> run, in the order
  in which their signals were sent; their signals are no longer pending.
\<close>

definition run_due :: "jvm \<Rightarrow> jthread \<Rightarrow> nat \<Rightarrow> agent \<Rightarrow> agent" where
  "run_due env thread k s =
     (let due = filter (\<lambda>t. handler_delay env thread t = Some k) (pending s);
          s1 = s\<lparr>pending := filter (\<lambda>t. handler_delay env thread t \<noteq> Some k) (pending s)\<rparr>
      in fold (signalHandler env) due s1)"

text \<open>
  \<open>pthread_kill(tag->thread_id, SIGSTACK)\<close>: the signal becomes pending on \<open>t\<close>, and the
  handlers that are due at once (tick \<open>0\<close>) run before the call returns.
\<close>

definition pthread_kill :: "jvm \<Rightarrow> jthread \<Rightarrow> pthread_t \<Rightarrow> agent \<Rightarrow> agent" where
  "pthread_kill env thread t s =
     run_due env thread 0 (emit (Pthread_kill t) (s\<lparr>pending := List.insert t (pending s)\<rparr>))"

text \<open>
  The spin loop of \<open>dumpThread\<close> after \<open>i\<close> polls, with \<open>n\<close> iterations left. Each iteration
  is one \<open>x_trace_running.test_and_set()\<close>: it reads the flag and leaves it set. When the
  poll found the flag set, the handlers due after this poll (tick \<open>i + 1\<close>) run before the
  next one. The result is the local \<open>done\<close> and the state.
\<close>

fun spin :: "jvm \<Rightarrow> jthread \<Rightarrow> nat \<Rightarrow> nat \<Rightarrow> agent \<Rightarrow> bool \<times> agent" where
  "spin env thread i 0 s = (False, s)"
| "spin env thread i (Suc n) s =
     (let was_set = x_trace_running s;
          s1 = s\<lparr>x_trace_running := True\<rparr>
      in if \<not> was_set then (True, s1)
         else spin env thread (i + 1) n (run_due env thread (i + 1) s1))"

text \<open>
  \<open>dumpThread\<close> returns nothing; the model names the path it took:
  \<open>Unavailable\<close> for the early return, \<open>Timeout\<close> for the warning branch and
  \<open>Captured\<close> for the branch that prints.
\<close>

datatype capture = Unavailable | Timeout | Captured

text \<open>Lines 238 to 240: the requester prepares the slot and the flag.\<close>

definition arm_trace :: "ThreadTag \<Rightarrow> agent \<Rightarrow> agent" where
  "arm_trace tag s =
     s\<lparr>x_trace := (x_trace s)\<lparr>trace_jni := tag_jni tag\<rparr>, x_trace_running := True\<rparr>"

definition dumpThread :: "jvm \<Rightarrow> jthread \<Rightarrow> agent \<Rightarrow> capture \<times> agent" where
  "dumpThread env thread s =
     (let s1 = RawMonitorEnter_lock s in
      case (if GetTag_ok env thread then tags s1 thread else None) of
        None \<Rightarrow> (Unavailable, RawMonitorExit_lock s1)
      | Some tag \<Rightarrow>
          (let s2 = arm_trace tag s1;
               s3 = pthread_kill env thread (thread_id tag) s2;
               (done, s4) = spin env thread 0 SPIN_LIMIT s3;
               s5 = RawMonitorExit_lock s4
           in if done then (Captured, printThreadDump env thread s5)
              else (Timeout, emit (Err (''WARNING: AStack trace did not complete'' @ NL)) s5)))"

text \<open>
  Lines 230 to 242 for a thread with the tag \<open>tag\<close>: the state in which the spin loop
  starts.
\<close>

definition signalled :: "jvm \<Rightarrow> jthread \<Rightarrow> ThreadTag \<Rightarrow> agent \<Rightarrow> agent" where
  "signalled env thread tag s =
     pthread_kill env thread (thread_id tag) (arm_trace tag (RawMonitorEnter_lock s))"

subsection \<open>handleClient\<close>

definition handleClient :: "jvm \<Rightarrow> agent \<Rightarrow> agent" where
  "handleClient env s =
     (case GetAllThreads env of
        Inl err \<Rightarrow> emit (Err (''WARNING: GetAllThreads failed: '' @ printf_d err @ NL)) s
      | Inr threads \<Rightarrow> fold (\<lambda>thread s'. snd (dumpThread env thread s')) threads s)"


subsection \<open>Agent_OnLoad\<close>

text \<open>
  \<open>sscanf(options, "port=%d", &port)\<close>. The characters of \<open>port=\<close> must match the input
  exactly. The directive \<open>%d\<close> then skips white space, reads an optional sign and the
  longest run of decimal digits, and fails when there is no digit. \<open>sscanf_port\<close> is
  \<open>Some v\<close> when \<open>sscanf\<close> returns \<open>1\<close> and stores \<open>v\<close>, and \<open>None\<close> when it returns anything
  else (\<open>0\<close> or \<open>EOF\<close>) and \<open>port\<close> is left alone. \<open>port\<close> is a 32-bit \<open>int\<close>. The GNU C
  library converts the sign and digits as \<open>strtol\<close> does, to a 64-bit \<open>long\<close> that
  saturates at \<open>LONG_MIN\<close> and \<open>LONG_MAX\<close> (\<open>strtol_value\<close>), and stores its low 32 bits
  (\<open>to_jint\<close>): \<open>port=2147483648\<close> stores \<open>-2147483648\<close>.
\<close>

definition isspace :: "char \<Rightarrow> bool" where
  "isspace c = (c \<in> set [CHR 0x20, CHR 0x09, CHR 0x0A, CHR 0x0B, CHR 0x0C, CHR 0x0D])"

definition isdigit :: "char \<Rightarrow> bool" where
  "isdigit c = (c \<in> set ''0123456789'')"

definition digit_val :: "char \<Rightarrow> int" where
  "digit_val c = int (of_char c) - 48"

definition decimal :: "string \<Rightarrow> int" where
  "decimal ds = foldl (\<lambda>a c. 10 * a + digit_val c) 0 ds"

definition strtol_value :: "int \<Rightarrow> int" where
  "strtol_value v = max (- (2 ^ 63)) (min (2 ^ 63 - 1) v)"

fun match_literal :: "string \<Rightarrow> string \<Rightarrow> string option" where
  "match_literal [] s = Some s"
| "match_literal (c # cs) [] = None"
| "match_literal (c # cs) (x # xs) = (if c = x then match_literal cs xs else None)"

definition scan_d :: "string \<Rightarrow> jint option" where
  "scan_d s =
     (let s1 = dropWhile isspace s;
          (neg, s2) = (case s1 of
                         [] \<Rightarrow> (False, s1)
                       | c # r \<Rightarrow> if c = CHR ''-'' then (True, r)
                                  else if c = CHR ''+'' then (False, r)
                                  else (False, s1));
          ds = takeWhile isdigit s2
      in if ds = [] then None
         else Some (to_jint (strtol_value (if neg then - decimal ds else decimal ds))))"

definition sscanf_port :: "string \<Rightarrow> jint option" where
  "sscanf_port s = (case match_literal ''port='' s of None \<Rightarrow> None | Some rest \<Rightarrow> scan_d rest)"

definition JNI_OK :: jint where
  "JNI_OK = 0"

definition JNI_ERR :: jint where
  "JNI_ERR = - 1"

datatype jvmtiEvent =
  JVMTI_EVENT_VM_INIT
| JVMTI_EVENT_CLASS_LOAD
| JVMTI_EVENT_CLASS_PREPARE
| JVMTI_EVENT_THREAD_START
| JVMTI_EVENT_THREAD_END

text \<open>
  What the JVM answers during \<open>Agent_OnLoad\<close>: the result of \<open>GetEnv\<close> and the error codes
  of the JVMTI calls (\<open>0\<close> is \<open>JVMTI_ERROR_NONE\<close>).
\<close>

record vm =
  GetEnv :: jint
  CreateRawMonitor :: int
  AddCapabilities :: int
  SetEventCallbacks :: int
  SetEventNotificationMode :: "jvmtiEvent \<Rightarrow> int"

fun enable_events :: "vm \<Rightarrow> jvmtiEvent list \<Rightarrow> agent \<Rightarrow> jint \<times> agent" where
  "enable_events v [] s = (JNI_OK, s)"
| "enable_events v (e # es) s =
     (let err = SetEventNotificationMode v e in
      if err \<noteq> 0 then
        (JNI_ERR, emit (Err (''ERROR: SetEventNotificationMode failed: '' @ printf_d err @ NL)) s)
      else enable_events v es s)"

definition Agent_OnLoad :: "vm \<Rightarrow> string option \<Rightarrow> agent \<Rightarrow> jint \<times> agent" where
  "Agent_OnLoad v options s =
     (case (case options of None \<Rightarrow> None | Some str \<Rightarrow> sscanf_port str) of
        None \<Rightarrow> (JNI_ERR, emit (Err (''ERROR: failed to parse port option'' @ NL)) s)
      | Some p \<Rightarrow>
          (let s1 = s\<lparr>port := p\<rparr> in
           if GetEnv v \<noteq> JNI_OK then
             (JNI_ERR, emit (Err (''ERROR: GetEnv failed: '' @ printf_d (GetEnv v) @ NL)) s1)
           else if CreateRawMonitor v \<noteq> 0 then
             (JNI_ERR, emit (Err (''ERROR: CreateRawMonitor failed: '' @
                printf_d (CreateRawMonitor v) @ NL)) s1)
           else if AddCapabilities v \<noteq> 0 then
             (JNI_ERR, emit (Err (''ERROR: AddCapabilities failed: '' @
                printf_d (AddCapabilities v) @ NL)) s1)
           else if SetEventCallbacks v \<noteq> 0 then
             (JNI_ERR, emit (Err (''ERROR: SetEventCallbacks failed: '' @
                printf_d (SetEventCallbacks v) @ NL)) s1)
           else enable_events v
                  [JVMTI_EVENT_VM_INIT, JVMTI_EVENT_CLASS_LOAD, JVMTI_EVENT_CLASS_PREPARE,
                   JVMTI_EVENT_THREAD_START, JVMTI_EVENT_THREAD_END] s1))"


section \<open>Notions of the specification\<close>

text \<open>
  The wrapper-marker pattern of class-name normalization: the name is long enough
  (at least three characters), starts with \<open>L\<close> and ends with \<open>;\<close>.
\<close>

definition wrapped :: "string \<Rightarrow> bool" where
  "wrapped s = (length s > 2 \<and> hd s = CHR ''L'' \<and> last s = CHR '';'')"

text \<open>
  The execution-state label as the specification derives it: one priority list, first
  match wins, starting with not-yet-started (neither alive nor terminated) and
  terminated, and with the label \<open>BLOCKED\<close> for a thread blocked acquiring a lock.
\<close>

definition spec_state_label :: "32 word \<Rightarrow> string" where
  "spec_state_label state =
     (if \<not> has_bits state JVMTI_THREAD_STATE_ALIVE \<and>
         \<not> has_bits state JVMTI_THREAD_STATE_TERMINATED then ''NEW''
      else if has_bits state JVMTI_THREAD_STATE_TERMINATED then ''TERMINATED''
      else if has_bits state JVMTI_THREAD_STATE_RUNNABLE then ''RUNNABLE''
      else if has_bits state JVMTI_THREAD_STATE_BLOCKED_ON_MONITOR_ENTER then ''BLOCKED''
      else if has_bits state JVMTI_THREAD_STATE_WAITING_INDEFINITELY then
        (if has_bits state JVMTI_THREAD_STATE_IN_OBJECT_WAIT then ''WAITING (on object monitor)''
         else if has_bits state JVMTI_THREAD_STATE_PARKED then ''WAITING (parking)''
         else ''WAITING'')
      else if has_bits state JVMTI_THREAD_STATE_WAITING_WITH_TIMEOUT then
        (if has_bits state JVMTI_THREAD_STATE_IN_OBJECT_WAIT
           then ''TIMED_WAITING (on object monitor)''
         else if has_bits state JVMTI_THREAD_STATE_PARKED then ''TIMED_WAITING (parking)''
         else if has_bits state JVMTI_THREAD_STATE_SLEEPING then ''TIMED_WAITING (sleeping)''
         else ''TIMED_WAITING'')
      else ''UNKNOWN'')"

text \<open>The texts written to the client's stream, in order.\<close>

fun outputs :: "event list \<Rightarrow> string list" where
  "outputs [] = []"
| "outputs (Out text # es) = text # outputs es"
| "outputs (e # es) = outputs es"

text \<open>
  An options string that begins with \<open>port=\<close> followed by a decimal integer as \<open>%d\<close>
  parses one (white space, an optional sign, at least one digit), and then anything.
\<close>

definition port_option :: "string \<Rightarrow> bool" where
  "port_option s =
     (\<exists>ws sg ds rest. s = ''port='' @ ws @ sg @ ds @ rest \<and> list_all isspace ws \<and>
        (sg = [] \<or> sg = ''+'' \<or> sg = ''-'') \<and> ds \<noteq> [] \<and> list_all isdigit ds)"

section \<open>An example JVM\<close>

text \<open>
  The methods: \<open>7\<close> is the native \<open>java.lang.Thread.sleep\<close>, \<open>2\<close> is
  \<open>com.example.Main.run\<close> with three line-table entries, \<open>3\<close> is \<open>com.example.Main.step\<close>
  with two entries; method \<open>4\<close> is unknown to the JVM; method \<open>5\<close> has a name that cannot
  be read and a table of one entry.
  Three threads: \<open>8\<close> (pthread \<open>101\<close>) answers the signal after three polls, \<open>2\<close>
  (pthread \<open>102\<close>) does not answer, \<open>3\<close> has no tag.
\<close>

definition demo_jvm :: jvm where
  "demo_jvm = \<lparr>
     GetMethodName = (\<lambda>m. if m = 7 then Some ''sleep'' else if m = 2 then Some ''run''
        else if m = 3 then Some ''step'' else None),
     GetMethodDeclaringClass = (\<lambda>m. if m = 7 then Some 10 else if m = 2 \<or> m = 3 then Some 20
        else None),
     GetClassSignature = (\<lambda>c. if c = 10 then Some ''Ljava/lang/Thread;''
        else if c = 20 then Some ''Lcom/example/Main;'' else None),
     GetSourceFileName = (\<lambda>c. if c = 20 then Some ''Main.java'' else None),
     GetLineNumberTable = (\<lambda>m.
        if m = 2 then Some [\<lparr>start_location = 0, line_number = 10\<rparr>,
                            \<lparr>start_location = 4, line_number = 11\<rparr>,
                            \<lparr>start_location = 9, line_number = 12\<rparr>]
        else if m = 3 then Some [\<lparr>start_location = 0, line_number = 6\<rparr>,
                                 \<lparr>start_location = 5, line_number = 7\<rparr>]
        else if m = 5 then Some [\<lparr>start_location = 3, line_number = 42\<rparr>]
        else None),
     GetThreadState = (\<lambda>t. if t = 8 then Some 0xE1 else if t = 2 then Some 0x401
        else if t = 3 then Some 0x2 else None),
     GetThreadInfo = (\<lambda>t.
        if t = 8 then Some \<lparr>name = ''main'', priority = 5, is_daemon = False\<rparr>
        else if t = 2 then Some \<lparr>name = ''worker'', priority = 5, is_daemon = True\<rparr>
        else if t = 3 then Some \<lparr>name = ''gone'', priority = 5, is_daemon = False\<rparr>
        else None),
     GetTag_ok = (\<lambda>t. True),
     GetAllThreads = Inr [3, 2, 8],
     AsyncGetCallTrace = (\<lambda>jni depth t.
        if t = 101 then (2, [\<lparr>lineno = - 3, method_id = 7\<rparr>, \<lparr>lineno = 5, method_id = 2\<rparr>])
        else (0, [])),
     handler_delay = (\<lambda>thread t. if t = 101 then Some 3 else None)\<rparr>"

text \<open>
  The agent before a dump: the slot still holds a frame of an earlier capture, the
  monitor is free, nothing has been written.
\<close>

definition demo_agent :: agent where
  "demo_agent = \<lparr>
     x_trace = \<lparr>trace_jni = 0, num_frames = 1,
                frames = \<lparr>lineno = 0, method_id = 3\<rparr> #
                         replicate (MAX_FRAMES - 1) \<lparr>lineno = 0, method_id = 0\<rparr>\<rparr>,
     x_trace_running = False,
     x_trace_lock = 0,
     port = 2000,
     tags = (\<lambda>t. if t = 8 then Some \<lparr>tag_jni = 5, thread_id = 101\<rparr>
                else if t = 2 then Some \<lparr>tag_jni = 6, thread_id = 102\<rparr> else None),
     pending = [],
     events = []\<rparr>"



text \<open>What the JVM answers at start-up when every call succeeds.\<close>

definition demo_vm :: vm where
  "demo_vm = \<lparr>GetEnv = 0, CreateRawMonitor = 0, AddCapabilities = 0, SetEventCallbacks = 0,
     SetEventNotificationMode = (\<lambda>e. 0)\<rparr>"

section \<open>Class-name normalization\<close>

lemma fixClassSignature_wrapped:
  "body \<noteq> [] \<Longrightarrow> fixClassSignature (CHR ''L'' # body @ [CHR '';'']) =
     map (\<lambda>c. if c = CHR ''/'' then CHR ''.'' else c) body"
  by (simp add: fixClassSignature_def nth_append)

lemma wrapped_iff: "wrapped s \<longleftrightarrow> (\<exists>body. body \<noteq> [] \<and> s = CHR ''L'' # body @ [CHR '';''])"
proof
  assume w: "wrapped s"
  then obtain c r where s: "s = c # r" by (cases s) (auto simp: wrapped_def)
  with w have c: "c = CHR ''L''" and r: "length r > 1" "last r = CHR '';''"
    by (auto simp: wrapped_def split: if_splits)
  from r obtain body where "r = body @ [CHR '';'']"
    by (metis append_butlast_last_id list.size(3) not_less_zero)
  with r s c show "\<exists>body. body \<noteq> [] \<and> s = CHR ''L'' # body @ [CHR '';'']" by auto
next
  assume "\<exists>body. body \<noteq> [] \<and> s = CHR ''L'' # body @ [CHR '';'']"
  then show "wrapped s" by (auto simp: wrapped_def)
qed

lemma fixClassSignature_not_wrapped:
  assumes "\<not> wrapped s"
  shows "fixClassSignature s = s"
proof (cases "length s \<le> 2")
  case True
  then show ?thesis by (simp add: fixClassSignature_def)
next
  case False
  then have ne: "s \<noteq> []" by auto
  then have "s ! 0 = hd s" and "s ! (length s - 1) = last s"
    by (simp_all add: hd_conv_nth last_conv_nth)
  with assms False show ?thesis
    by (simp add: fixClassSignature_def wrapped_def)
qed

lemma fixClassSignature_idem:
  assumes "wrapped s \<longrightarrow> s ! (length s - 2) \<noteq> CHR '';''"
  shows "fixClassSignature (fixClassSignature s) = fixClassSignature s"
proof (cases "wrapped s")
  case False
  then show ?thesis by (simp add: fixClassSignature_not_wrapped)
next
  case True
  then obtain body where b: "body \<noteq> []" "s = CHR ''L'' # body @ [CHR '';'']"
    by (auto simp: wrapped_iff)
  with assms True have "last body \<noteq> CHR '';''"
    by (simp add: nth_append last_conv_nth)
  then have "last (map (\<lambda>c. if c = CHR ''/'' then CHR ''.'' else c) body) \<noteq> CHR '';''"
    using b(1) by (simp add: last_map)
  then have "\<not> wrapped (map (\<lambda>c. if c = CHR ''/'' then CHR ''.'' else c) body)"
    by (simp add: wrapped_def)
  then show ?thesis
    using b by (simp add: fixClassSignature_wrapped fixClassSignature_not_wrapped)
qed

text \<open>
  Claim C7. A name \<open>L\<close>\<^emph>\<open>body\<close>\<open>;\<close> with a non-empty body is normalized to the body with every
  \<open>/\<close> replaced by \<open>.\<close> (one pair of markers is stripped); a name that does not match the
  wrapper pattern, and so every name shorter than three characters, is left as it is; and
  normalizing a normalized name changes nothing. The names that reach
  \<open>fixClassSignature\<close> are the signatures that \<open>GetClassSignature\<close> returns (line 167). A
  JVM class name cannot contain \<open>;\<close>, so in such a name no character but the last is a
  \<open>;\<close>, which is the condition of the last part.
\<close>

theorem fixClassSignature_normalizes:
  "(body \<noteq> [] \<longrightarrow>
      fixClassSignature (CHR ''L'' # body @ [CHR '';'']) =
        map (\<lambda>c. if c = CHR ''/'' then CHR ''.'' else c) body) \<and>
   (\<not> wrapped s \<longrightarrow> fixClassSignature s = s) \<and>
   (length s < 3 \<longrightarrow> fixClassSignature s = s) \<and>
   (CHR '';'' \<notin> set (butlast s) \<longrightarrow>
      fixClassSignature (fixClassSignature s) = fixClassSignature s)"
proof -
  have short: "length s < 3 \<longrightarrow> \<not> wrapped s" by (simp add: wrapped_def)
  have idem: "fixClassSignature (fixClassSignature s) = fixClassSignature s"
    if semi: "CHR '';'' \<notin> set (butlast s)"
  proof (rule fixClassSignature_idem, rule impI)
    assume "wrapped s"
    then obtain body' where b: "body' \<noteq> []" "s = CHR ''L'' # body' @ [CHR '';'']"
      by (auto simp: wrapped_iff)
    then have "butlast s = CHR ''L'' # body'" by (simp add: butlast_append)
    with semi b(1) have "last body' \<noteq> CHR '';''"
      by (metis last_in_set list.set_intros(2))
    with b show "s ! (length s - 2) \<noteq> CHR '';''"
      by (simp add: nth_append last_conv_nth)
  qed
  from short idem show ?thesis
    using fixClassSignature_wrapped [of body] fixClassSignature_not_wrapped [of s]
    by blast
qed

theorem fixClassSignature_normalizes_witness:
  "''java/lang/String'' \<noteq> [] \<and>
   fixClassSignature (CHR ''L'' # ''java/lang/String'' @ [CHR '';'']) = ''java.lang.String'' \<and>
   CHR '';'' \<notin> set (butlast ''Ljava/lang/String;'') \<and>
   fixClassSignature (fixClassSignature ''Ljava/lang/String;'') =
     fixClassSignature ''Ljava/lang/String;'' \<and>
   \<not> wrapped ''[Ljava/lang/String;'' \<and>
   fixClassSignature ''[Ljava/lang/String;'' = ''[Ljava/lang/String;'' \<and>
   length ''[I'' < 3 \<and> fixClassSignature ''[I'' = ''[I''"
proof -
  have "''java/lang/String'' \<noteq> []" "CHR '';'' \<notin> set (butlast ''Ljava/lang/String;'')"
    "\<not> wrapped ''[Ljava/lang/String;''" "length ''[I'' < 3"
    by (simp_all add: wrapped_def)
  with fixClassSignature_normalizes [of "''java/lang/String''" "''Ljava/lang/String;''"]
    fixClassSignature_normalizes [of "''java/lang/String''" "''[Ljava/lang/String;''"]
    fixClassSignature_normalizes [of "''java/lang/String''" "''[I''"]
  show ?thesis by auto
qed

section \<open>Thread-state labels\<close>

lemmas thread_state_bits =
  has_bits_def JVMTI_THREAD_STATE_ALIVE_def JVMTI_THREAD_STATE_TERMINATED_def
  JVMTI_THREAD_STATE_RUNNABLE_def JVMTI_THREAD_STATE_WAITING_INDEFINITELY_def
  JVMTI_THREAD_STATE_WAITING_WITH_TIMEOUT_def JVMTI_THREAD_STATE_SLEEPING_def
  JVMTI_THREAD_STATE_IN_OBJECT_WAIT_def JVMTI_THREAD_STATE_PARKED_def
  JVMTI_THREAD_STATE_BLOCKED_ON_MONITOR_ENTER_def

text \<open>
  Claim C4, as stated, fails at two kinds of bitmask. A thread blocked on a monitor
  (\<open>0x401\<close>: alive, blocked on monitor enter) is labelled \<open>BLOCKED (on object monitor)\<close>,
  not \<open>BLOCKED\<close>. And the code tests the alive bit before the terminated bit, so the mask
  \<open>0x7\<close> (alive, terminated and runnable all set) is \<open>RUNNABLE\<close>, where the
  specification's order gives \<open>TERMINATED\<close>.
\<close>

theorem threadStateEnum_differs_from_spec:
  "threadStateEnum 0x401 = ''BLOCKED (on object monitor)'' \<and>
   spec_state_label 0x401 = ''BLOCKED'' \<and>
   threadStateEnum 0x7 = ''RUNNABLE'' \<and>
   spec_state_label 0x7 = ''TERMINATED''"
  by (simp add: threadStateEnum_def spec_state_label_def thread_state_bits)

text \<open>
  Claim C4, amended: the label of every bitmask, in the order the code tests the bits.
  A mask without the alive bit is \<open>TERMINATED\<close> if the terminated bit is set and \<open>NEW\<close>
  otherwise. A mask with the alive bit is, first match winning: \<open>RUNNABLE\<close>;
  \<open>BLOCKED (on object monitor)\<close>; for indefinite waiting \<open>WAITING (on object monitor)\<close>,
  \<open>WAITING (parking)\<close> or \<open>WAITING\<close>; for timed waiting \<open>TIMED_WAITING (on object monitor)\<close>,
  \<open>(parking)\<close>, \<open>(sleeping)\<close> or \<open>TIMED_WAITING\<close>; and \<open>UNKNOWN\<close> otherwise.
\<close>

theorem threadStateEnum_labels:
  fixes state :: "32 word"
  defines "alive \<equiv> has_bits state JVMTI_THREAD_STATE_ALIVE"
    and "terminated \<equiv> has_bits state JVMTI_THREAD_STATE_TERMINATED"
    and "runnable \<equiv> has_bits state JVMTI_THREAD_STATE_RUNNABLE"
    and "blocked \<equiv> has_bits state JVMTI_THREAD_STATE_BLOCKED_ON_MONITOR_ENTER"
    and "indefinitely \<equiv> has_bits state JVMTI_THREAD_STATE_WAITING_INDEFINITELY"
    and "timed \<equiv> has_bits state JVMTI_THREAD_STATE_WAITING_WITH_TIMEOUT"
    and "in_wait \<equiv> has_bits state JVMTI_THREAD_STATE_IN_OBJECT_WAIT"
    and "parked \<equiv> has_bits state JVMTI_THREAD_STATE_PARKED"
    and "sleeping \<equiv> has_bits state JVMTI_THREAD_STATE_SLEEPING"
  shows
  "(\<not> alive \<and> \<not> terminated \<longrightarrow> threadStateEnum state = ''NEW'') \<and>
   (\<not> alive \<and> terminated \<longrightarrow> threadStateEnum state = ''TERMINATED'') \<and>
   (alive \<and> runnable \<longrightarrow> threadStateEnum state = ''RUNNABLE'') \<and>
   (alive \<and> \<not> runnable \<and> blocked \<longrightarrow>
      threadStateEnum state = ''BLOCKED (on object monitor)'') \<and>
   (alive \<and> \<not> runnable \<and> \<not> blocked \<and> indefinitely \<longrightarrow>
      threadStateEnum state =
        (if in_wait then ''WAITING (on object monitor)''
         else if parked then ''WAITING (parking)'' else ''WAITING'')) \<and>
   (alive \<and> \<not> runnable \<and> \<not> blocked \<and> \<not> indefinitely \<and> timed \<longrightarrow>
      threadStateEnum state =
        (if in_wait then ''TIMED_WAITING (on object monitor)''
         else if parked then ''TIMED_WAITING (parking)''
         else if sleeping then ''TIMED_WAITING (sleeping)'' else ''TIMED_WAITING'')) \<and>
   (alive \<and> \<not> runnable \<and> \<not> blocked \<and> \<not> indefinitely \<and> \<not> timed \<longrightarrow>
      threadStateEnum state = ''UNKNOWN'')"
  unfolding alive_def terminated_def runnable_def blocked_def indefinitely_def timed_def
    in_wait_def parked_def sleeping_def
  by (simp add: threadStateEnum_def)

theorem threadStateEnum_labels_witness:
  "threadStateEnum 0x0 = ''NEW'' \<and>
   threadStateEnum 0x2 = ''TERMINATED'' \<and>
   threadStateEnum 0x5 = ''RUNNABLE'' \<and>
   threadStateEnum 0x401 = ''BLOCKED (on object monitor)'' \<and>
   threadStateEnum 0x191 = ''WAITING (on object monitor)'' \<and>
   threadStateEnum 0x291 = ''WAITING (parking)'' \<and>
   threadStateEnum 0x91 = ''WAITING'' \<and>
   threadStateEnum 0x1A1 = ''TIMED_WAITING (on object monitor)'' \<and>
   threadStateEnum 0x2A1 = ''TIMED_WAITING (parking)'' \<and>
   threadStateEnum 0xE1 = ''TIMED_WAITING (sleeping)'' \<and>
   threadStateEnum 0xA1 = ''TIMED_WAITING'' \<and>
   threadStateEnum 0x81 = ''UNKNOWN''"
  using threadStateEnum_labels [of "0x0"] threadStateEnum_labels [of "0x2"]
    threadStateEnum_labels [of "0x5"] threadStateEnum_labels [of "0x401"]
    threadStateEnum_labels [of "0x191"] threadStateEnum_labels [of "0x291"]
    threadStateEnum_labels [of "0x91"] threadStateEnum_labels [of "0x1A1"]
    threadStateEnum_labels [of "0x2A1"] threadStateEnum_labels [of "0xE1"]
    threadStateEnum_labels [of "0xA1"] threadStateEnum_labels [of "0x81"]
  by (simp add: thread_state_bits)

section \<open>Line numbers\<close>

lemma scan_table_hit:
  assumes inc: "sorted_wrt (<) (map start_location table)"
    and i: "i + 1 < length table"
    and lo: "start_location (table ! i) \<le> target"
    and hi: "target < start_location (table ! (i + 1))"
  shows "1 \<le> j \<Longrightarrow> j \<le> i + 1 \<Longrightarrow> last_loc = start_location (table ! (j - 1)) \<Longrightarrow>
    scan_table table target j last_loc = (line_number (table ! i), start_location (table ! i))"
proof (induction "i + 1 - j" arbitrary: j last_loc)
  case 0
  then have j: "j = i + 1" by simp
  show ?case
    using i lo hi 0(4) unfolding j by (subst scan_table.simps) simp
next
  case (Suc d)
  then have ji: "j \<le> i" and jl: "j < length table" using i by auto
  have "start_location (table ! j) \<le> start_location (table ! i)"
  proof (cases "j = i")
    case True then show ?thesis by simp
  next
    case False
    with ji have "j < i" by simp
    with inc i have "map start_location table ! j < map start_location table ! i"
      by (auto simp: sorted_wrt_iff_nth_less)
    with i ji show ?thesis by simp
  qed
  with lo have nohit: "\<not> target < start_location (table ! j)" by simp
  have "scan_table table target j last_loc =
      scan_table table target (j + 1) (start_location (table ! j))"
    using jl nohit by (subst scan_table.simps) simp
  also have "\<dots> = (line_number (table ! i), start_location (table ! i))"
    using Suc(2) Suc(3) ji by (intro Suc(1)) auto
  finally show ?case .
qed

lemma scan_table_past:
  assumes inc: "sorted_wrt (<) (map start_location table)"
    and past: "start_location (table ! (length table - 1)) \<le> target"
  shows "1 \<le> j \<Longrightarrow> j \<le> length table \<Longrightarrow> last_loc = start_location (table ! (j - 1)) \<Longrightarrow>
    scan_table table target j last_loc = (- 1, start_location (table ! (length table - 1)))"
proof (induction "length table - j" arbitrary: j last_loc)
  case 0
  then have "j = length table" by simp
  with 0 show ?case by (subst scan_table.simps) simp
next
  case (Suc d)
  then have jl: "j < length table" by simp
  have "start_location (table ! j) \<le> start_location (table ! (length table - 1))"
  proof (cases "j = length table - 1")
    case True then show ?thesis by simp
  next
    case False
    with jl have "j < length table - 1" by simp
    with inc jl have "map start_location table ! j < map start_location table ! (length table - 1)"
      by (auto simp: sorted_wrt_iff_nth_less)
    with jl show ?thesis by simp
  qed
  with past have nohit: "\<not> target < start_location (table ! j)" by simp
  have "scan_table table target j last_loc =
      scan_table table target (j + 1) (start_location (table ! j))"
    using jl nohit by (subst scan_table.simps) simp
  also have "\<dots> = (- 1, start_location (table ! (length table - 1)))"
    using Suc(2) jl by (intro Suc(1)) auto
  finally show ?case .
qed

lemma scan_table_range:
  "1 \<le> i \<Longrightarrow> fst (scan_table table target i last_loc) \<in> insert (- 1) (line_number ` set table)"
proof (induction table target i last_loc rule: scan_table.induct)
  case (1 table target i last_loc)
  show ?case
  proof (cases "i < length table")
    case False
    then show ?thesis by (subst scan_table.simps) simp
  next
    case il: True
    show ?thesis
    proof (cases "target < start_location (table ! i) \<and> target \<ge> last_loc")
      case True
      have "table ! (i - 1) \<in> set table" using il by (intro nth_mem) simp
      with il True show ?thesis by (subst scan_table.simps) simp
    next
      case False
      with il 1 show ?thesis by (subst scan_table.simps) simp
    qed
  qed
qed

lemma getLineNumber_range:
  assumes "0 \<le> target" "GetLineNumberTable env m = Some table"
  shows "getLineNumber env m target \<in> insert (- 1) (line_number ` set table)"
proof -
  have last: "length table > 1 \<Longrightarrow> table ! (length table - 1) \<in> set table"
    by (intro nth_mem) simp
  have first: "length table = 1 \<Longrightarrow> table ! 0 \<in> set table"
    by (intro nth_mem) simp
  have "fst (scan_table table target 1 (start_location (table ! 0))) \<in>
      insert (- 1) (line_number ` set table)"
    by (rule scan_table_range) simp
  with assms last first show ?thesis
    by (auto simp: getLineNumber_def split: prod.splits)
qed

lemma getLineNumber_no_table:
  "0 \<le> target \<Longrightarrow> GetLineNumberTable env m = None \<Longrightarrow> getLineNumber env m target = - 1"
  by (simp add: getLineNumber_def)

text \<open>
  Claim C5, as stated, fails at location \<open>-1\<close> (a frame whose bytecode index is unknown):
  the location is negative and the result is \<open>-1\<close>, the value that stands for "no line
  information", not the native-method sentinel \<open>-3\<close>.
\<close>

theorem getLineNumber_negative_not_native:
  "\<not> (getLineNumber demo_jvm 2 (- 1) = NATIVE_METHOD_LINENO \<longleftrightarrow> (- 1 :: int) < 0)"
  by (simp add: getLineNumber_def to_jint_def NATIVE_METHOD_LINENO_def)

text \<open>
  Claim C5, amended. A negative location is returned as it is (narrowed to \<open>jint\<close>), so
  among the negative locations of the \<open>jint\<close> range the result is the native-method
  sentinel \<open>-3\<close> exactly for location \<open>-3\<close>; the sentinel differs from \<open>-1\<close>, the result when
  no line information is available; and for a location that is not negative the result
  is the sentinel only if the method's line-number table itself holds the line \<open>-3\<close>.
\<close>

theorem getLineNumber_negative:
  "(target < 0 \<longrightarrow> getLineNumber env m target = to_jint target) \<and>
   (- (2 ^ 31) \<le> target \<and> target < 0 \<longrightarrow>
      getLineNumber env m target = target \<and>
      (getLineNumber env m target = NATIVE_METHOD_LINENO \<longleftrightarrow> target = - 3)) \<and>
   NATIVE_METHOD_LINENO \<noteq> - 1 \<and>
   (0 \<le> target \<and> GetLineNumberTable env m = None \<longrightarrow> getLineNumber env m target = - 1) \<and>
   (0 \<le> target \<and> getLineNumber env m target = NATIVE_METHOD_LINENO \<longrightarrow>
      (\<exists>table. GetLineNumberTable env m = Some table \<and>
         NATIVE_METHOD_LINENO \<in> line_number ` set table))"
proof -
  have neg: "target < 0 \<longrightarrow> getLineNumber env m target = to_jint target"
    by (simp add: getLineNumber_def)
  have "- (2 ^ 31) \<le> target \<and> target < 0 \<longrightarrow> to_jint target = target"
    unfolding to_jint_def by (simp add: signed_take_bit_int_eq_self)
  with neg have in_range: "- (2 ^ 31) \<le> target \<and> target < 0 \<longrightarrow>
      getLineNumber env m target = target \<and>
      (getLineNumber env m target = NATIVE_METHOD_LINENO \<longleftrightarrow> target = - 3)"
    by (simp add: NATIVE_METHOD_LINENO_def)
  have sentinel: "NATIVE_METHOD_LINENO \<noteq> - 1"
    by (simp add: NATIVE_METHOD_LINENO_def)
  have none: "0 \<le> target \<and> GetLineNumberTable env m = None \<longrightarrow> getLineNumber env m target = - 1"
    by (simp add: getLineNumber_no_table)
  have pos: "0 \<le> target \<and> getLineNumber env m target = NATIVE_METHOD_LINENO \<longrightarrow>
      (\<exists>table. GetLineNumberTable env m = Some table \<and>
         NATIVE_METHOD_LINENO \<in> line_number ` set table)"
  proof (intro impI, elim conjE)
    assume t: "0 \<le> target" and r: "getLineNumber env m target = NATIVE_METHOD_LINENO"
    show "\<exists>table. GetLineNumberTable env m = Some table \<and>
         NATIVE_METHOD_LINENO \<in> line_number ` set table"
    proof (cases "GetLineNumberTable env m")
      case None
      with t r sentinel show ?thesis by (simp add: getLineNumber_no_table)
    next
      case (Some table)
      from getLineNumber_range [OF t Some] r sentinel
      have "NATIVE_METHOD_LINENO \<in> line_number ` set table" by auto
      with Some show ?thesis by simp
    qed
  qed
  from neg in_range sentinel none pos show ?thesis by blast
qed

theorem getLineNumber_negative_witness:
  "(- 3 :: int) < 0 \<and> - (2 ^ 31) \<le> (- 3 :: int) \<and>
   getLineNumber demo_jvm 7 (- 3) = NATIVE_METHOD_LINENO \<and>
   (- 1 :: int) < 0 \<and> - (2 ^ 31) \<le> (- 1 :: int) \<and>
   getLineNumber demo_jvm 2 (- 1) = - 1 \<and>
   getLineNumber demo_jvm 2 (- 1) \<noteq> NATIVE_METHOD_LINENO \<and>
   (0 :: int) \<le> 5 \<and> GetLineNumberTable demo_jvm 7 = None \<and> getLineNumber demo_jvm 7 5 = - 1"
  using getLineNumber_negative [of "- 3" demo_jvm 7] getLineNumber_negative [of "- 1" demo_jvm 2]
    getLineNumber_negative [of 5 demo_jvm 7]
  by (simp add: demo_jvm_def NATIVE_METHOD_LINENO_def)

text \<open>
  Claim C6, for a location that is not negative and a method with a line-number table.
  A table of one entry gives that entry's line whatever the location. In a table of
  more than one entry with increasing starts, a location from entry \<open>i\<close>'s start (so, in
  particular, every location strictly after it) to before entry \<open>i + 1\<close>'s start gives
  entry \<open>i\<close>'s line; and a location at or past the last entry's start gives the last
  entry's line. The tables are those that \<open>GetLineNumberTable\<close> returns: their line
  numbers come from the class file, where they are unsigned 16-bit numbers, so none is
  negative (the loop relies on this when it uses \<open>-1\<close> for "nothing found yet").
\<close>

theorem getLineNumber_table:
  assumes "GetLineNumberTable env m = Some table" and "0 \<le> target"
    and "\<forall>e \<in> set table. 0 \<le> line_number e"
  shows
  "(length table = 1 \<longrightarrow> getLineNumber env m target = line_number (table ! 0)) \<and>
   (1 < length table \<and> sorted_wrt (<) (map start_location table) \<and> i + 1 < length table \<and>
    start_location (table ! i) \<le> target \<and> target < start_location (table ! (i + 1)) \<longrightarrow>
      getLineNumber env m target = line_number (table ! i)) \<and>
   (1 < length table \<and> sorted_wrt (<) (map start_location table) \<and>
    start_location (last table) \<le> target \<longrightarrow>
      getLineNumber env m target = line_number (last table))"
proof (intro conjI impI)
  assume "length table = 1"
  with assms show "getLineNumber env m target = line_number (table ! 0)"
    by (simp add: getLineNumber_def)
next
  assume h: "1 < length table \<and> sorted_wrt (<) (map start_location table) \<and>
    i + 1 < length table \<and> start_location (table ! i) \<le> target \<and>
    target < start_location (table ! (i + 1))"
  then have "table ! i \<in> set table" by (intro nth_mem) simp
  with assms(3) have l: "line_number (table ! i) \<noteq> - 1" by fastforce
  from h have "scan_table table target 1 (start_location (table ! 0)) =
      (line_number (table ! i), start_location (table ! i))"
    by (intro scan_table_hit) auto
  with assms h l show "getLineNumber env m target = line_number (table ! i)"
    by (simp add: getLineNumber_def)
next
  assume h: "1 < length table \<and> sorted_wrt (<) (map start_location table) \<and>
    start_location (last table) \<le> target"
  then have ne: "table \<noteq> []" by auto
  then have l: "last table = table ! (length table - 1)" by (simp add: last_conv_nth)
  with h have "scan_table table target 1 (start_location (table ! 0)) =
      (- 1, start_location (table ! (length table - 1)))"
    by (intro scan_table_past) auto
  with assms h l show "getLineNumber env m target = line_number (last table)"
    by (simp add: getLineNumber_def)
qed

theorem getLineNumber_table_witness:
  "GetLineNumberTable demo_jvm 2 =
     Some [\<lparr>start_location = 0, line_number = 10\<rparr>, \<lparr>start_location = 4, line_number = 11\<rparr>,
           \<lparr>start_location = 9, line_number = 12\<rparr>] \<and>
   getLineNumber demo_jvm 2 5 = 11 \<and> getLineNumber demo_jvm 2 8 = 11 \<and>
   getLineNumber demo_jvm 2 9 = 12 \<and> getLineNumber demo_jvm 2 700 = 12 \<and>
   GetLineNumberTable demo_jvm 5 = Some [\<lparr>start_location = 3, line_number = 42\<rparr>] \<and>
   getLineNumber demo_jvm 5 0 = 42"
proof -
  let ?table = "[\<lparr>start_location = 0, line_number = 10\<rparr>, \<lparr>start_location = 4, line_number = 11\<rparr>,
           \<lparr>start_location = 9, line_number = 12\<rparr>]"
  have t: "GetLineNumberTable demo_jvm 2 = Some ?table" by (simp add: demo_jvm_def)
  have p: "\<forall>e \<in> set ?table. 0 \<le> line_number e" by simp
  have "getLineNumber demo_jvm 2 5 = 11"
    using getLineNumber_table [OF t _ p, of 5 1] by simp
  moreover have "getLineNumber demo_jvm 2 8 = 11"
    using getLineNumber_table [OF t _ p, of 8 1] by simp
  moreover have "getLineNumber demo_jvm 2 9 = 12"
    using getLineNumber_table [OF t _ p, of 9 0] by simp
  moreover have "getLineNumber demo_jvm 2 700 = 12"
    using getLineNumber_table [OF t _ p, of 700 0] by simp
  moreover have u: "GetLineNumberTable demo_jvm 5 = Some [\<lparr>start_location = 3, line_number = 42\<rparr>]"
    by (simp add: demo_jvm_def)
  moreover have "getLineNumber demo_jvm 5 0 = 42"
    using getLineNumber_table [OF u, of 0 0] by simp
  ultimately show ?thesis using t by simp
qed

section \<open>Frame lines\<close>

lemma show_nat_digits: "list_all isdigit (show_nat n)"
proof (induction n rule: show_nat.induct)
  case (1 n)
  have d: "k < 10 \<Longrightarrow> isdigit (''0123456789'' ! k)" for k :: nat
  proof -
    assume "k < 10"
    then have "k \<in> {0, 1, 2, 3, 4, 5, 6, 7, 8, 9}" by auto
    then show ?thesis by (auto simp: isdigit_def)
  qed
  show ?case
  proof (cases "n < 10")
    case True
    then show ?thesis by (subst show_nat.simps) (simp add: d)
  next
    case False
    with 1 have "list_all isdigit (show_nat (n div 10))" by simp
    moreover have "isdigit (''0123456789'' ! (n mod 10))" by (rule d) simp
    ultimately show ?thesis using False by (subst show_nat.simps) simp
  qed
qed

lemma decimal_snoc: "decimal (ds @ [c]) = 10 * decimal ds + digit_val c"
  by (simp add: decimal_def)

lemma decimal_show_nat: "decimal (show_nat n) = int n"
proof (induction n rule: show_nat.induct)
  case (1 n)
  have d: "k < 10 \<Longrightarrow> digit_val (''0123456789'' ! k) = int k" for k :: nat
  proof -
    assume "k < 10"
    then have "k \<in> {0, 1, 2, 3, 4, 5, 6, 7, 8, 9}" by auto
    then show ?thesis by (auto simp: digit_val_def)
  qed
  show ?case
  proof (cases "n < 10")
    case True
    then show ?thesis by (subst show_nat.simps) (simp add: d decimal_def)
  next
    case False
    with 1 have "decimal (show_nat (n div 10)) = int (n div 10)" by simp
    moreover have "digit_val (''0123456789'' ! (n mod 10)) = int (n mod 10)" by (rule d) simp
    moreover have "10 * int (n div 10) + int (n mod 10) = int n"
      by presburger
    ultimately show ?thesis
      using False by (subst show_nat.simps) (simp add: decimal_snoc)
  qed
qed

lemma printf_d_positive:
  "0 < i \<Longrightarrow> list_all isdigit (printf_d i) \<and> decimal (printf_d i) = i"
  by (simp add: printf_d_def show_nat_digits decimal_show_nat)

text \<open>
  Claim C9. The text written for a frame is \<open>\tat <class>.<method>(<descriptor>)\n\<close>. The
  descriptor is \<open>Native Method\<close> when the resolved line is the native sentinel; otherwise
  \<open>Unknown Source\<close> when no source file name is available; otherwise the source file
  alone when the resolved line is not positive; otherwise the source file, a colon and
  the line in decimal. The method is \<open>Unknown\<close> when its name cannot be read, and the
  class is \<open>Unknown\<close> when the declaring class or its signature cannot be read; a line is
  written in every case.
\<close>

theorem printCallFrame_forms:
  fixes env :: jvm and m :: jmethodID and l :: jint
  defines "line \<equiv> getLineNumber env m l"
    and "clazz \<equiv> GetMethodDeclaringClass env m"
  defines "src \<equiv> (case clazz of None \<Rightarrow> None | Some c \<Rightarrow> GetSourceFileName env c)"
    and "cls \<equiv> (case clazz of None \<Rightarrow> ''Unknown''
               | Some c \<Rightarrow> (case GetClassSignature env c of None \<Rightarrow> ''Unknown''
                            | Some sig \<Rightarrow> fixClassSignature sig))"
    and "mth \<equiv> (case GetMethodName env m of None \<Rightarrow> ''Unknown'' | Some n \<Rightarrow> n)"
  shows
  "printCallFrame env m l =
     TAB @ ''at '' @ cls @ ''.'' @ mth @ ''('' @
       (if line = NATIVE_METHOD_LINENO then ''Native Method''
        else case src of
          None \<Rightarrow> ''Unknown Source''
        | Some file \<Rightarrow> if line \<le> 0 then file else file @ '':'' @ printf_d line) @
       '')'' @ NL \<and>
   (0 < line \<longrightarrow> list_all isdigit (printf_d line) \<and> decimal (printf_d line) = line)"
  unfolding line_def clazz_def src_def cls_def mth_def
  using printf_d_positive [of "getLineNumber env m l"]
  by (simp add: printCallFrame_def split: option.splits)

theorem printCallFrame_forms_witness:
  "printCallFrame demo_jvm 7 (- 3) = TAB @ ''at java.lang.Thread.sleep(Native Method)'' @ NL \<and>
   printCallFrame demo_jvm 7 0 = TAB @ ''at java.lang.Thread.sleep(Unknown Source)'' @ NL \<and>
   printCallFrame demo_jvm 3 (- 1) = TAB @ ''at com.example.Main.step(Main.java)'' @ NL \<and>
   printCallFrame demo_jvm 2 5 = TAB @ ''at com.example.Main.run(Main.java:11)'' @ NL \<and>
   0 < getLineNumber demo_jvm 2 5 \<and>
   printCallFrame demo_jvm 4 7 = TAB @ ''at Unknown.Unknown(Unknown Source)'' @ NL \<and>
   printCallFrame demo_jvm 5 0 = TAB @ ''at Unknown.Unknown(Unknown Source)'' @ NL"
proof -
  have l1: "getLineNumber demo_jvm 7 (- 3) = - 3" "getLineNumber demo_jvm 7 0 = - 1"
    "getLineNumber demo_jvm 3 (- 1) = - 1" "getLineNumber demo_jvm 2 5 = 11"
    "getLineNumber demo_jvm 4 7 = - 1" "getLineNumber demo_jvm 5 0 = 42"
    by (simp_all add: getLineNumber_def demo_jvm_def to_jint_def scan_table.simps)
  have p: "printf_d 11 = ''11''"
    by (simp add: printf_d_def show_nat.simps)
  have q: "GetMethodDeclaringClass demo_jvm 7 = Some 10" "GetMethodDeclaringClass demo_jvm 2 = Some 20"
    "GetMethodDeclaringClass demo_jvm 3 = Some 20" "GetMethodDeclaringClass demo_jvm 4 = None"
    "GetMethodDeclaringClass demo_jvm 5 = None"
    "GetClassSignature demo_jvm 10 = Some ''Ljava/lang/Thread;''"
    "GetClassSignature demo_jvm 20 = Some ''Lcom/example/Main;''"
    "GetSourceFileName demo_jvm 10 = None" "GetSourceFileName demo_jvm 20 = Some ''Main.java''"
    "GetMethodName demo_jvm 7 = Some ''sleep''" "GetMethodName demo_jvm 2 = Some ''run''"
    "GetMethodName demo_jvm 3 = Some ''step''" "GetMethodName demo_jvm 4 = None"
    "GetMethodName demo_jvm 5 = None"
    by (simp_all add: demo_jvm_def)
  have f: "fixClassSignature ''Ljava/lang/Thread;'' = ''java.lang.Thread''"
    "fixClassSignature ''Lcom/example/Main;'' = ''com.example.Main''"
    by (simp_all add: fixClassSignature_def)
  show ?thesis
    using printCallFrame_forms [of demo_jvm 7 "- 3"] printCallFrame_forms [of demo_jvm 7 0]
      printCallFrame_forms [of demo_jvm 3 "- 1"] printCallFrame_forms [of demo_jvm 2 5]
      printCallFrame_forms [of demo_jvm 4 7] printCallFrame_forms [of demo_jvm 5 0]
    by (simp add: l1 p q f NATIVE_METHOD_LINENO_def)
qed

section \<open>Start-up options\<close>

lemma match_literal_append: "match_literal lit (lit @ r) = Some r"
  by (induction lit) simp_all

lemma match_literal_Some: "match_literal lit s = Some r \<Longrightarrow> s = lit @ r"
  by (induction lit s rule: match_literal.induct) (auto split: if_splits)

lemma sign_not_space: "\<not> isspace CHR ''+''" "\<not> isspace CHR ''-''"
  by (simp_all add: isspace_def)

lemma digit_not_space: "isdigit c \<Longrightarrow> \<not> isspace c"
  by (auto simp: isdigit_def isspace_def)

lemma digit_not_sign: "isdigit c \<Longrightarrow> c \<noteq> CHR ''+'' \<and> c \<noteq> CHR ''-''"
  by (auto simp: isdigit_def)

text \<open>What \<open>%d\<close> reads from white space, a sign, digits and a rest.\<close>

lemma scan_d_parts:
  assumes ws: "list_all isspace ws"
    and sg: "sg = [] \<or> sg = ''+'' \<or> sg = ''-''"
    and ds: "ds \<noteq> []" "list_all isdigit ds"
  shows "scan_d (ws @ sg @ ds @ rest) =
    Some (to_jint (strtol_value
      (if sg = ''-'' then - decimal (ds @ takeWhile isdigit rest)
       else decimal (ds @ takeWhile isdigit rest))))"
proof -
  from ds obtain d ds' where d: "ds = d # ds'" "isdigit d" by (cases ds) auto
  have tw: "takeWhile isdigit (ds @ rest) = ds @ takeWhile isdigit rest"
    using ds(2) by (simp add: takeWhile_append2 list_all_iff)
  have drop_ws: "dropWhile isspace (ws @ t) = dropWhile isspace t" for t
    using ws by (simp add: dropWhile_append2 list_all_iff)
  from sg consider "sg = []" | "sg = ''+''" | "sg = ''-''" by blast
  then show ?thesis
  proof cases
    case 1
    have "dropWhile isspace (ds @ rest) = ds @ rest"
      using d digit_not_space by simp
    with 1 tw ds(1) show ?thesis
      using digit_not_sign [OF d(2)] d(1)
      by (simp add: scan_d_def drop_ws)
  next
    case 2
    with tw ds(1) show ?thesis
      by (simp add: scan_d_def drop_ws sign_not_space)
  next
    case 3
    with tw ds(1) show ?thesis
      by (simp add: scan_d_def drop_ws sign_not_space)
  qed
qed

lemma scan_d_Some:
  assumes "scan_d r = Some p"
  shows "\<exists>ws sg ds rest. r = ws @ sg @ ds @ rest \<and> list_all isspace ws \<and>
    (sg = [] \<or> sg = ''+'' \<or> sg = ''-'') \<and> ds \<noteq> [] \<and> list_all isdigit ds"
proof -
  define ws where "ws = takeWhile isspace r"
  define s1 where "s1 = dropWhile isspace r"
  define sg where "sg = (case s1 of [] \<Rightarrow> [] | c # t \<Rightarrow>
    if c = CHR ''-'' then ''-'' else if c = CHR ''+'' then ''+'' else [])"
  define s2 where "s2 = (case s1 of [] \<Rightarrow> s1 | c # t \<Rightarrow>
    if c = CHR ''-'' then t else if c = CHR ''+'' then t else s1)"
  define ds where "ds = takeWhile isdigit s2"
  define rest where "rest = dropWhile isdigit s2"
  have r: "r = ws @ s1" by (simp add: ws_def s1_def)
  have s1: "s1 = sg @ s2" by (auto simp: sg_def s2_def split: list.splits)
  have s2: "s2 = ds @ rest" by (simp add: ds_def rest_def)
  have "scan_d r = None" if "ds = []"
  proof (cases s1)
    case Nil
    with that show ?thesis
      unfolding scan_d_def ds_def s2_def s1_def [symmetric] by simp
  next
    case (Cons c t)
    with that show ?thesis
      unfolding scan_d_def ds_def s2_def s1_def [symmetric] by (simp split: if_splits)
  qed
  with assms have "ds \<noteq> []" by auto
  moreover have "list_all isspace ws"
    unfolding ws_def list_all_iff by (auto dest: set_takeWhileD)
  moreover have "list_all isdigit ds"
    unfolding ds_def list_all_iff by (auto dest: set_takeWhileD)
  moreover have "sg = [] \<or> sg = ''+'' \<or> sg = ''-''"
    by (auto simp: sg_def split: list.splits)
  moreover have "r = ws @ sg @ ds @ rest" using r s1 s2 by simp
  ultimately show ?thesis by blast
qed

lemma sscanf_port_iff: "(\<exists>p. sscanf_port s = Some p) \<longleftrightarrow> port_option s"
proof
  assume "\<exists>p. sscanf_port s = Some p"
  then obtain p r where m: "match_literal ''port='' s = Some r" and p: "scan_d r = Some p"
    by (auto simp: sscanf_port_def split: option.splits)
  from match_literal_Some [OF m] scan_d_Some [OF p] show "port_option s"
    unfolding port_option_def by blast
next
  assume "port_option s"
  then obtain ws sg ds rest where s: "s = ''port='' @ ws @ sg @ ds @ rest"
    and h: "list_all isspace ws" "sg = [] \<or> sg = ''+'' \<or> sg = ''-''" "ds \<noteq> []"
      "list_all isdigit ds"
    unfolding port_option_def by blast
  have "match_literal ''port='' s = Some (ws @ sg @ ds @ rest)"
    unfolding s by (rule match_literal_append)
  with scan_d_parts [OF h, of rest] show "\<exists>p. sscanf_port s = Some p"
    by (simp add: sscanf_port_def)
qed

lemma sscanf_port_value:
  assumes "list_all isspace ws" "sg = [] \<or> sg = ''+'' \<or> sg = ''-''" "ds \<noteq> []"
    "list_all isdigit ds" "rest = [] \<or> \<not> isdigit (hd rest)"
  shows "sscanf_port (''port='' @ ws @ sg @ ds @ rest) =
    Some (to_jint (strtol_value (if sg = ''-'' then - decimal ds else decimal ds)))"
proof -
  have "takeWhile isdigit rest = []"
    using assms(5) by (cases rest) auto
  moreover have "match_literal ''port='' (''port='' @ ws @ sg @ ds @ rest) =
      Some (ws @ sg @ ds @ rest)"
    by (rule match_literal_append)
  ultimately show ?thesis
    using scan_d_parts [OF assms(1-4), of rest] by (simp add: sscanf_port_def)
qed

lemma enable_events_result:
  "enable_events v es s = (JNI_OK, s) \<or>
   (\<exists>e. enable_events v es s =
      (JNI_ERR, emit (Err (''ERROR: SetEventNotificationMode failed: '' @ e)) s))"
  by (induction es) (auto simp: Let_def)

lemma events_emit: "events (emit e s) = events s @ [e]"
  by (simp add: emit_def)

lemma port_emit: "port (emit e s) = port s"
  by (simp add: emit_def)

text \<open>
  When the options parse, \<open>Agent_OnLoad\<close> stores the port and goes on; whatever it then
  returns, it has written at most one message, and that message is not the parse error.
\<close>

lemma Agent_OnLoad_parsed:
  assumes "sscanf_port str = Some p"
  shows "port (snd (Agent_OnLoad v (Some str) s)) = p \<and>
    (events (snd (Agent_OnLoad v (Some str) s)) = events s \<and>
       fst (Agent_OnLoad v (Some str) s) = JNI_OK \<or>
     (\<exists>c e. events (snd (Agent_OnLoad v (Some str) s)) = events s @ [Err (''ERROR: '' @ c # e)] \<and>
        c \<noteq> CHR ''f'' \<and> fst (Agent_OnLoad v (Some str) s) = JNI_ERR))"
proof -
  let ?s1 = "s\<lparr>port := p\<rparr>"
  have ev: "events ?s1 = events s" and po: "port ?s1 = p" by simp_all
  from enable_events_result [of v _ ?s1] show ?thesis
    using assms by (auto simp: Agent_OnLoad_def Let_def events_emit port_emit)
qed

lemma to_jint_strtol_value:
  "- (2 ^ 31) \<le> v \<Longrightarrow> v < 2 ^ 31 \<Longrightarrow> to_jint (strtol_value v) = v"
proof -
  assume a: "- (2 ^ 31) \<le> v" "v < 2 ^ 31"
  then have "strtol_value v = v" by (simp add: strtol_value_def)
  with a show ?thesis
    unfolding to_jint_def by (simp add: signed_take_bit_int_eq_self)
qed

text \<open>
  Claim C10. \<open>Agent_OnLoad\<close> reports the parse error and returns \<open>JNI_ERR\<close>, leaving the
  agent as it was, exactly when the options are null or do not begin with \<open>port=\<close>
  followed by a decimal integer as \<open>%d\<close> reads one. When they do, the number read becomes
  the port, whatever follows it and whatever its value: every number of the \<open>int\<close> range
  is stored as it is, negative or beyond 65535 alike, and a number beyond the \<open>int\<close>
  range is accepted too and stored as the low 32 bits of its \<open>strtol\<close> value.
\<close>

theorem Agent_OnLoad_port_option:
  fixes v :: vm and options :: "string option" and s :: agent
    and str ws sg ds rest :: string
  defines "number \<equiv> (if sg = ''-'' then - decimal ds else decimal ds)"
  shows
  "(Agent_OnLoad v options s =
      (JNI_ERR, emit (Err (''ERROR: failed to parse port option'' @ NL)) s) \<longleftrightarrow>
    options = None \<or> (\<exists>str. options = Some str \<and> \<not> port_option str)) \<and>
   (options = Some str \<and> port_option str \<longrightarrow>
      (\<exists>p. sscanf_port str = Some p \<and> port (snd (Agent_OnLoad v options s)) = p)) \<and>
   (list_all isspace ws \<and> (sg = [] \<or> sg = ''+'' \<or> sg = ''-'') \<and> ds \<noteq> [] \<and>
    list_all isdigit ds \<and> (rest = [] \<or> \<not> isdigit (hd rest)) \<longrightarrow>
      port (snd (Agent_OnLoad v (Some (''port='' @ ws @ sg @ ds @ rest)) s)) =
        to_jint (strtol_value number) \<and>
      (- (2 ^ 31) \<le> number \<and> number < 2 ^ 31 \<longrightarrow>
         port (snd (Agent_OnLoad v (Some (''port='' @ ws @ sg @ ds @ rest)) s)) = number))"
proof (intro conjI impI)
  let ?rejected = "(JNI_ERR, emit (Err (''ERROR: failed to parse port option'' @ NL)) s)"
  show "Agent_OnLoad v options s = ?rejected \<longleftrightarrow>
    options = None \<or> (\<exists>str. options = Some str \<and> \<not> port_option str)"
  proof (cases options)
    case None
    then show ?thesis by (simp add: Agent_OnLoad_def)
  next
    case (Some str')
    show ?thesis
    proof (cases "sscanf_port str'")
      case None
      then have "\<not> port_option str'" using sscanf_port_iff [of str'] by simp
      with None Some show ?thesis by (simp add: Agent_OnLoad_def)
    next
      case (Some p)
      then have po: "port_option str'" using sscanf_port_iff [of str'] by blast
      from Agent_OnLoad_parsed [OF Some, of v s]
      have "events (snd (Agent_OnLoad v (Some str') s)) \<noteq> events (snd ?rejected)"
        by (auto simp: events_emit)
      then have "Agent_OnLoad v (Some str') s \<noteq> ?rejected" by metis
      with po \<open>options = Some str'\<close> show ?thesis by simp
    qed
  qed
next
  assume h: "options = Some str \<and> port_option str"
  then obtain p where p: "sscanf_port str = Some p" using sscanf_port_iff [of str] by blast
  from Agent_OnLoad_parsed [OF p, of v s] h p
  show "\<exists>p. sscanf_port str = Some p \<and> port (snd (Agent_OnLoad v options s)) = p" by simp
next
  assume h: "list_all isspace ws \<and> (sg = [] \<or> sg = ''+'' \<or> sg = ''-'') \<and> ds \<noteq> [] \<and>
      list_all isdigit ds \<and> (rest = [] \<or> \<not> isdigit (hd rest))"
  then have "sscanf_port (''port='' @ ws @ sg @ ds @ rest) = Some (to_jint (strtol_value number))"
    unfolding number_def by (intro sscanf_port_value) auto
  from Agent_OnLoad_parsed [OF this, of v s]
  show stored: "port (snd (Agent_OnLoad v (Some (''port='' @ ws @ sg @ ds @ rest)) s)) =
        to_jint (strtol_value number)" by simp
  assume "- (2 ^ 31) \<le> number \<and> number < 2 ^ 31"
  then show "port (snd (Agent_OnLoad v (Some (''port='' @ ws @ sg @ ds @ rest)) s)) = number"
    using stored by (simp add: to_jint_strtol_value)
qed

lemma sscanf_port_examples:
  "sscanf_port ''port=80abc'' = Some 80" "sscanf_port ''port=-5'' = Some (- 5)"
  "sscanf_port ''port=70000'' = Some 70000" "sscanf_port ''port= +9'' = Some 9"
  "sscanf_port ''port=2147483648'' = Some (- 2147483648)"
  "sscanf_port ''port=99999999999999999999'' = Some (- 1)"
  "sscanf_port ''8080'' = None" "sscanf_port ''port=abc'' = None" "sscanf_port ''port='' = None"
  "sscanf_port '' port=80'' = None"
  by (simp_all add: sscanf_port_def scan_d_def isspace_def isdigit_def decimal_def digit_val_def
      strtol_value_def to_jint_def)

theorem Agent_OnLoad_port_option_witness:
  "Agent_OnLoad demo_vm None demo_agent =
     (JNI_ERR, emit (Err (''ERROR: failed to parse port option'' @ NL)) demo_agent) \<and>
   \<not> port_option ''8080'' \<and>
   Agent_OnLoad demo_vm (Some ''8080'') demo_agent =
     (JNI_ERR, emit (Err (''ERROR: failed to parse port option'' @ NL)) demo_agent) \<and>
   \<not> port_option ''port=abc'' \<and>
   Agent_OnLoad demo_vm (Some ''port=abc'') demo_agent =
     (JNI_ERR, emit (Err (''ERROR: failed to parse port option'' @ NL)) demo_agent) \<and>
   port_option ''port=80abc'' \<and>
   Agent_OnLoad demo_vm (Some ''port=80abc'') demo_agent = (JNI_OK, demo_agent\<lparr>port := 80\<rparr>) \<and>
   port_option ''port=-5'' \<and>
   port (snd (Agent_OnLoad demo_vm (Some ''port=-5'') demo_agent)) = - 5 \<and>
   port_option ''port=70000'' \<and>
   port (snd (Agent_OnLoad demo_vm (Some ''port=70000'') demo_agent)) = 70000 \<and>
   port_option ''port=2147483648'' \<and>
   port (snd (Agent_OnLoad demo_vm (Some ''port=2147483648'') demo_agent)) = - 2147483648"
proof -
  have po: "\<not> port_option ''8080''" "\<not> port_option ''port=abc''" "port_option ''port=80abc''"
    "port_option ''port=-5''" "port_option ''port=70000''" "port_option ''port=2147483648''"
    using sscanf_port_iff [of "''8080''"] sscanf_port_iff [of "''port=abc''"]
      sscanf_port_iff [of "''port=80abc''"] sscanf_port_iff [of "''port=-5''"]
      sscanf_port_iff [of "''port=70000''"] sscanf_port_iff [of "''port=2147483648''"]
    by (simp_all add: sscanf_port_examples)
  have d: "list_all isdigit ''80''" "list_all isdigit ''5''" "list_all isdigit ''70000''"
    "list_all isdigit ''2147483648''" "\<not> isdigit (hd ''abc'')"
    by (simp_all add: isdigit_def)
  have n: "decimal ''80'' = 80" "decimal ''5'' = 5" "decimal ''70000'' = 70000"
    "decimal ''2147483648'' = 2147483648"
    by (simp_all add: decimal_def digit_val_def)
  have w: "to_jint (strtol_value 2147483648) = - 2147483648"
    by (simp add: strtol_value_def to_jint_def)
  have a: "port (snd (Agent_OnLoad demo_vm (Some ''port=80abc'') demo_agent)) = 80"
    using Agent_OnLoad_port_option [where ws = "[]" and sg = "[]" and ds = "''80''" and rest = "''abc''"
        and v = demo_vm and s = demo_agent] d n
    by (simp add: to_jint_strtol_value)
  have b: "port (snd (Agent_OnLoad demo_vm (Some ''port=-5'') demo_agent)) = - 5"
    using Agent_OnLoad_port_option [where ws = "[]" and sg = "''-''" and ds = "''5''" and rest = "[]"
        and v = demo_vm and s = demo_agent] d n
    by (simp add: to_jint_strtol_value)
  have c: "port (snd (Agent_OnLoad demo_vm (Some ''port=70000'') demo_agent)) = 70000"
    using Agent_OnLoad_port_option [where ws = "[]" and sg = "[]" and ds = "''70000''" and rest = "[]"
        and v = demo_vm and s = demo_agent] d n
    by (simp add: to_jint_strtol_value)
  have e: "port (snd (Agent_OnLoad demo_vm (Some ''port=2147483648'') demo_agent)) = - 2147483648"
    using Agent_OnLoad_port_option [where ws = "[]" and sg = "[]" and ds = "''2147483648''" and rest = "[]"
        and v = demo_vm and s = demo_agent] d n w
    by simp
  have ok: "Agent_OnLoad demo_vm (Some ''port=80abc'') demo_agent =
      (JNI_OK, demo_agent\<lparr>port := 80\<rparr>)"
    by (simp add: Agent_OnLoad_def sscanf_port_examples demo_vm_def JNI_OK_def)
  show ?thesis
    using Agent_OnLoad_port_option [where v = demo_vm and options = None and s = demo_agent]
      Agent_OnLoad_port_option [where v = demo_vm and options = "Some ''8080''" and s = demo_agent]
      Agent_OnLoad_port_option [where v = demo_vm and options = "Some ''port=abc''"
        and s = demo_agent]
      Agent_OnLoad_port_option [where v = demo_vm and options = "Some ''port=-5''"
        and s = demo_agent and str = "''port=-5''"]
      po ok a b c e
    by (simp add: sscanf_port_examples)
qed

section \<open>Capturing one thread\<close>

lemma set_flag_idem: "x_trace_running s \<Longrightarrow> s\<lparr>x_trace_running := True\<rparr> = s"
  by (cases s) simp

lemma set_pending_idem: "s\<lparr>pending := pending s\<rparr> = s"
  by (cases s) simp

lemma signalHandler_clears: "\<not> x_trace_running (signalHandler env t s)"
  by (simp add: signalHandler_def split: prod.splits)

lemma signalHandler_state:
  "AsyncGetCallTrace env (trace_jni (x_trace s)) MAX_FRAMES t = (n, fs) \<Longrightarrow>
   signalHandler env t s =
     s\<lparr>x_trace := (x_trace s)\<lparr>num_frames := n,
          frames := store_frames (take MAX_FRAMES fs) (frames (x_trace s))\<rparr>,
       x_trace_running := False\<rparr>"
  by (simp add: signalHandler_def)

lemma signalHandler_fields:
  "events (signalHandler env t s) = events s"
  "tags (signalHandler env t s) = tags s"
  "x_trace_lock (signalHandler env t s) = x_trace_lock s"
  "pending (signalHandler env t s) = pending s"
  by (simp_all add: signalHandler_def split: prod.splits)

lemma fold_signalHandler_fields:
  "events (fold (signalHandler env) ts s) = events s"
  "tags (fold (signalHandler env) ts s) = tags s"
  "x_trace_lock (fold (signalHandler env) ts s) = x_trace_lock s"
  "pending (fold (signalHandler env) ts s) = pending s"
  by (induction ts arbitrary: s) (simp_all add: signalHandler_fields)

lemma fold_signalHandler_flag:
  "x_trace_running (fold (signalHandler env) ts s) \<longleftrightarrow> ts = [] \<and> x_trace_running s"
proof (induction ts arbitrary: s rule: rev_induct)
  case Nil
  then show ?case by simp
next
  case (snoc t ts)
  then show ?case by (simp add: signalHandler_clears)
qed

subsection \<open>The handlers due at a tick\<close>

lemma run_due_fields:
  "events (run_due env thread k s) = events s"
  "tags (run_due env thread k s) = tags s"
  "x_trace_lock (run_due env thread k s) = x_trace_lock s"
  by (simp_all add: run_due_def Let_def fold_signalHandler_fields)


lemma run_due_flag:
  "x_trace_running (run_due env thread k s) \<longleftrightarrow>
     x_trace_running s \<and> (\<forall>t \<in> set (pending s). handler_delay env thread t \<noteq> Some k)"
  by (auto simp: run_due_def Let_def fold_signalHandler_flag filter_empty_conv)

lemma run_due_idle:
  assumes "\<forall>t \<in> set (pending s). handler_delay env thread t \<noteq> Some k"
  shows "run_due env thread k s = s"
proof -
  from assms have "filter (\<lambda>t. handler_delay env thread t = Some k) (pending s) = []"
    and "filter (\<lambda>t. handler_delay env thread t \<noteq> Some k) (pending s) = pending s"
    by (simp_all add: filter_empty_conv filter_id_conv)
  then show ?thesis by (simp add: run_due_def set_pending_idem)
qed

lemma filter_single:
  "distinct xs \<Longrightarrow> u \<in> set xs \<Longrightarrow> P u \<Longrightarrow> (\<forall>v \<in> set xs. v \<noteq> u \<longrightarrow> \<not> P v) \<Longrightarrow>
   filter P xs = [u]"
proof (induction xs)
  case Nil
  then show ?case by simp
next
  case (Cons x xs)
  show ?case
  proof (cases "x = u")
    case True
    with Cons.prems have "\<forall>v \<in> set xs. \<not> P v" by auto
    then have "filter P xs = []" by (simp add: filter_empty_conv)
    with True Cons.prems show ?thesis by simp
  next
    case False
    with Cons show ?thesis by auto
  qed
qed

text \<open>When exactly one pending handler is due at tick \<open>k\<close>, it is the one that runs.\<close>

lemma run_due_single:
  assumes "distinct (pending s)" "u \<in> set (pending s)" "handler_delay env thread u = Some k"
    and "\<forall>v \<in> set (pending s). v \<noteq> u \<longrightarrow> handler_delay env thread v \<noteq> Some k"
  shows "run_due env thread k s =
    signalHandler env u
      (s\<lparr>pending := filter (\<lambda>t. handler_delay env thread t \<noteq> Some k) (pending s)\<rparr>)"
proof -
  have "filter (\<lambda>t. handler_delay env thread t = Some k) (pending s) = [u]"
    using assms by (intro filter_single) auto
  then show ?thesis by (simp add: run_due_def)
qed

subsection \<open>The spin loop\<close>

lemma spin_fields:
  "events (snd (spin env thread i n s)) = events s \<and>
   tags (snd (spin env thread i n s)) = tags s \<and>
   x_trace_lock (snd (spin env thread i n s)) = x_trace_lock s"
  by (induction n arbitrary: i s) (simp_all add: Let_def run_due_fields)

lemma spin_poll_clear:
  "\<not> x_trace_running s \<Longrightarrow> 0 < n \<Longrightarrow>
   spin env thread i n s = (True, s\<lparr>x_trace_running := True\<rparr>)"
  by (cases n) simp_all

lemma spin_idle:
  "x_trace_running s \<Longrightarrow>
   \<forall>t \<in> set (pending s). \<forall>k. handler_delay env thread t = Some k \<longrightarrow> \<not> (i < k \<and> k \<le> i + n) \<Longrightarrow>
   spin env thread i n s = (False, s)"
proof (induction n arbitrary: i)
  case 0
  then show ?case by simp
next
  case (Suc n)
  have idle: "run_due env thread (i + 1) s = s"
    using Suc.prems(2) by (intro run_due_idle) fastforce
  have "spin env thread (i + 1) n s = (False, s)"
    using Suc.prems by (intro Suc.IH) fastforce+
  with Suc.prems(1) idle show ?case by (simp add: set_flag_idem)
qed

lemma spin_first_due:
  "x_trace_running s \<Longrightarrow> i < k \<Longrightarrow> k < i + n \<Longrightarrow>
   \<exists>t \<in> set (pending s). handler_delay env thread t = Some k \<Longrightarrow>
   \<forall>t \<in> set (pending s). \<forall>j. handler_delay env thread t = Some j \<longrightarrow> \<not> (i < j \<and> j < k) \<Longrightarrow>
   spin env thread i n s = (True, (run_due env thread k s)\<lparr>x_trace_running := True\<rparr>)"
proof (induction n arbitrary: i)
  case 0
  then show ?case by simp
next
  case (Suc n)
  show ?case
  proof (cases "k = i + 1")
    case True
    with Suc.prems have n: "0 < n" by simp
    have "\<not> x_trace_running (run_due env thread k s)"
      using Suc.prems(4) by (auto simp: run_due_flag)
    then have "spin env thread (i + 1) n (run_due env thread k s) =
        (True, (run_due env thread k s)\<lparr>x_trace_running := True\<rparr>)"
      using n by (intro spin_poll_clear)
    with Suc.prems(1) True show ?thesis by (simp add: set_flag_idem)
  next
    case False
    with Suc.prems have ik: "i + 1 < k" by simp
    have idle: "run_due env thread (i + 1) s = s"
    proof (rule run_due_idle, rule ballI)
      fix t assume "t \<in> set (pending s)"
      with Suc.prems(5) ik show "handler_delay env thread t \<noteq> Some (i + 1)" by fastforce
    qed
    have "spin env thread (i + 1) n s =
        (True, (run_due env thread k s)\<lparr>x_trace_running := True\<rparr>)"
      using Suc.prems ik by (intro Suc.IH) fastforce+
    with Suc.prems(1) idle show ?thesis by (simp add: set_flag_idem)
  qed
qed


subsection \<open>Sending the signal\<close>

lemma pthread_kill_fields:
  "events (pthread_kill env thread t s) = events s @ [Pthread_kill t]"
  "tags (pthread_kill env thread t s) = tags s"
  "x_trace_lock (pthread_kill env thread t s) = x_trace_lock s"
  by (simp_all add: pthread_kill_def run_due_fields emit_def)



subsection \<open>The paths of dumpThread\<close>

lemma lock_round_trip:
  "RawMonitorExit_lock (RawMonitorEnter_lock s) =
     s\<lparr>events := events s @ [RawMonitorEnter, RawMonitorExit]\<rparr>"
  by (simp add: RawMonitorExit_lock_def RawMonitorEnter_lock_def emit_def)

lemma dumpThread_unavailable:
  assumes "\<not> GetTag_ok env thread \<or> tags s thread = None"
  shows "dumpThread env thread s =
    (Unavailable, s\<lparr>events := events s @ [RawMonitorEnter, RawMonitorExit]\<rparr>)"
proof -
  have "tags (RawMonitorEnter_lock s) thread = tags s thread"
    by (simp add: RawMonitorEnter_lock_def emit_def)
  with assms show ?thesis
    by (auto simp: dumpThread_def Let_def lock_round_trip)
qed

text \<open>With a tag, \<open>dumpThread\<close> sets the flag, sends the signal and spins.\<close>

lemma dumpThread_tagged:
  assumes "GetTag_ok env thread" "tags s thread = Some tag"
  shows "dumpThread env thread s =
    (let r = spin env thread 0 SPIN_LIMIT (signalled env thread tag s) in
     if fst r then (Captured, printThreadDump env thread (RawMonitorExit_lock (snd r)))
     else (Timeout, emit (Err (''WARNING: AStack trace did not complete'' @ NL))
                      (RawMonitorExit_lock (snd r))))"
proof -
  have "tags (RawMonitorEnter_lock s) thread = Some tag"
    using assms(2) by (simp add: RawMonitorEnter_lock_def emit_def)
  with assms(1) show ?thesis
    by (simp add: dumpThread_def signalled_def Let_def split: prod.splits)
qed

lemma signalled_fields:
  "events (signalled env thread tag s) = events s @ [RawMonitorEnter, Pthread_kill (thread_id tag)]"
  "tags (signalled env thread tag s) = tags s"
  "x_trace_lock (signalled env thread tag s) = x_trace_lock s + 1"
  by (simp_all add: signalled_def pthread_kill_fields arm_trace_def RawMonitorEnter_lock_def
      emit_def)




lemma fold_emit_events:
  "events (fold (\<lambda>x. emit (g x)) xs s) = events s @ map g xs"
  by (induction xs arbitrary: s) (simp_all add: emit_def)

lemma fold_emit_fields:
  "x_trace (fold (\<lambda>x. emit (g x)) xs s) = x_trace s \<and>
   x_trace_running (fold (\<lambda>x. emit (g x)) xs s) = x_trace_running s \<and>
   x_trace_lock (fold (\<lambda>x. emit (g x)) xs s) = x_trace_lock s \<and>
   tags (fold (\<lambda>x. emit (g x)) xs s) = tags s \<and>
   pending (fold (\<lambda>x. emit (g x)) xs s) = pending s"
  by (induction xs arbitrary: s) (simp_all add: emit_def)

text \<open>The header that \<open>printThreadDump\<close> writes, if the thread's state and info can be read.\<close>

lemma printThreadDump_events:
  "events (printThreadDump env thread s) =
     events s @
     map Out ((case GetThreadState env thread of
                 None \<Rightarrow> []
               | Some state \<Rightarrow> (case GetThreadInfo env thread of
                                  None \<Rightarrow> []
                                | Some info \<Rightarrow> [thread_header info state])) @
              map (\<lambda>f. printCallFrame env (method_id f) (lineno f))
                (take (nat (num_frames (x_trace s))) (frames (x_trace s))) @
              [NL])"
  by (simp add: printThreadDump_def Let_def fold_emit_events emit_def split: option.splits)

lemma printThreadDump_fields:
  "x_trace (printThreadDump env thread s) = x_trace s \<and>
   x_trace_running (printThreadDump env thread s) = x_trace_running s \<and>
   x_trace_lock (printThreadDump env thread s) = x_trace_lock s \<and>
   tags (printThreadDump env thread s) = tags s \<and>
   pending (printThreadDump env thread s) = pending s"
  by (simp add: printThreadDump_def Let_def fold_emit_fields emit_def split: option.splits)

lemma outputs_append: "outputs (xs @ ys) = outputs xs @ outputs ys"
  by (induction xs rule: outputs.induct) simp_all

lemma outputs_map_Out: "outputs (map Out ts) = ts"
  by (induction ts) simp_all


text \<open>The events of a request for a tagged thread, on its two paths.\<close>

lemma dumpThread_tagged_events:
  assumes "GetTag_ok env thread" "tags s thread = Some tag"
  defines "r \<equiv> dumpThread env thread s"
  shows "(fst r = Timeout \<and>
      events (snd r) = events s @
        [RawMonitorEnter, Pthread_kill (thread_id tag), RawMonitorExit,
         Err (''WARNING: AStack trace did not complete'' @ NL)]) \<or>
     (fst r = Captured \<and>
      events (snd r) = events s @
        [RawMonitorEnter, Pthread_kill (thread_id tag), RawMonitorExit] @
        map Out ((case GetThreadState env thread of
                    None \<Rightarrow> []
                  | Some state \<Rightarrow> (case GetThreadInfo env thread of
                                     None \<Rightarrow> []
                                   | Some info \<Rightarrow> [thread_header info state])) @
                 map (\<lambda>f. printCallFrame env (method_id f) (lineno f))
                   (take (nat (num_frames (x_trace (snd r)))) (frames (x_trace (snd r)))) @
                 [NL]))"
proof -
  let ?w = "spin env thread 0 SPIN_LIMIT (signalled env thread tag s)"
  have e: "events (snd ?w) = events s @ [RawMonitorEnter, Pthread_kill (thread_id tag)]"
    using spin_fields [of env thread 0 SPIN_LIMIT "signalled env thread tag s"]
    by (simp add: signalled_fields)
  show ?thesis
  proof (cases "fst ?w")
    case True
    then have "r = (Captured, printThreadDump env thread (RawMonitorExit_lock (snd ?w)))"
      unfolding r_def dumpThread_tagged [OF assms(1,2)] by (simp add: Let_def)
    then show ?thesis
      by (simp add: printThreadDump_events printThreadDump_fields e RawMonitorExit_lock_def
          emit_def)
  next
    case False
    then have "r = (Timeout, emit (Err (''WARNING: AStack trace did not complete'' @ NL))
                      (RawMonitorExit_lock (snd ?w)))"
      unfolding r_def dumpThread_tagged [OF assms(1,2)] by (simp add: Let_def)
    then show ?thesis
      by (simp add: e RawMonitorExit_lock_def emit_def)
  qed
qed

lemma dumpThread_tags: "tags (snd (dumpThread env thread s)) = tags s"
proof (cases "GetTag_ok env thread \<and> tags s thread \<noteq> None")
  case False
  then show ?thesis by (auto simp: dumpThread_unavailable)
next
  case True
  then obtain tag where t: "GetTag_ok env thread" "tags s thread = Some tag" by auto
  show ?thesis
    unfolding dumpThread_tagged [OF t]
    using spin_fields [of env thread 0 SPIN_LIMIT "signalled env thread tag s"]
    by (simp add: Let_def printThreadDump_fields RawMonitorExit_lock_def emit_def
        signalled_fields)
qed

subsection \<open>Time-out and capture\<close>

text \<open>No pending handler is due up to the last poll: the request times out.\<close>

lemma dumpThread_quiet:
  assumes "GetTag_ok env thread" "tags s thread = Some tag"
    and "\<forall>u \<in> set (List.insert (thread_id tag) (pending s)).
           \<forall>k. handler_delay env thread u = Some k \<longrightarrow> SPIN_LIMIT < k"
  shows "dumpThread env thread s =
    (Timeout, s\<lparr>x_trace := (x_trace s)\<lparr>trace_jni := tag_jni tag\<rparr>, x_trace_running := True,
       pending := List.insert (thread_id tag) (pending s),
       events := events s @ [RawMonitorEnter, Pthread_kill (thread_id tag), RawMonitorExit,
         Err (''WARNING: AStack trace did not complete'' @ NL)]\<rparr>)"
proof -
  let ?P = "List.insert (thread_id tag) (pending s)"
  let ?s3 = "emit (Pthread_kill (thread_id tag))
     ((arm_trace tag (RawMonitorEnter_lock s))\<lparr>pending := ?P\<rparr>)"
  have p: "pending ?s3 = ?P" and f: "x_trace_running ?s3"
    by (simp_all add: emit_def arm_trace_def)
  have "run_due env thread 0 ?s3 = ?s3"
  proof (rule run_due_idle, rule ballI)
    fix t assume "t \<in> set (pending ?s3)"
    then have "t \<in> set ?P" by (simp only: p)
    with assms(3) show "handler_delay env thread t \<noteq> Some 0" by fastforce
  qed
  then have sg: "signalled env thread tag s = ?s3"
    by (simp add: signalled_def pthread_kill_def arm_trace_def RawMonitorEnter_lock_def emit_def)
  have "spin env thread 0 SPIN_LIMIT ?s3 = (False, ?s3)"
  proof (rule spin_idle [OF f], intro ballI allI impI)
    fix t k assume "t \<in> set (pending ?s3)" and k: "handler_delay env thread t = Some k"
    then have "t \<in> set ?P" by (simp only: p)
    with assms(3) k have "SPIN_LIMIT < k" by blast
    then show "\<not> (0 < k \<and> k \<le> 0 + SPIN_LIMIT)" by simp
  qed
  then show ?thesis
    unfolding dumpThread_tagged [OF assms(1,2)] sg
    by (simp add: RawMonitorExit_lock_def RawMonitorEnter_lock_def emit_def arm_trace_def)
qed

text \<open>
  The first handler that is due within the bound, at tick \<open>k\<close>, runs on thread \<open>u\<close>, and no
  other handler is due at that tick: the request is captured with what the walker
  deposits on \<open>u\<close>. The thread \<open>u\<close> is the one signalled by this request or another one
  whose signal was still pending.
\<close>

lemma dumpThread_captured_by:
  assumes "GetTag_ok env thread" "tags s thread = Some tag"
    and "distinct (pending s)"
    and "u \<in> set (List.insert (thread_id tag) (pending s))"
    and "handler_delay env thread u = Some k" "k < SPIN_LIMIT"
    and "\<forall>v \<in> set (List.insert (thread_id tag) (pending s)). v \<noteq> u \<longrightarrow>
           (\<forall>j. handler_delay env thread v = Some j \<longrightarrow> k < j)"
    and "AsyncGetCallTrace env (tag_jni tag) MAX_FRAMES u = (n, fs)"
  shows "dumpThread env thread s =
    (Captured, printThreadDump env thread
       (s\<lparr>x_trace := \<lparr>trace_jni = tag_jni tag, num_frames = n,
                      frames = store_frames (take MAX_FRAMES fs) (frames (x_trace s))\<rparr>,
          x_trace_running := True,
          pending := filter (\<lambda>t. handler_delay env thread t \<noteq> Some k)
                       (List.insert (thread_id tag) (pending s)),
          events := events s @ [RawMonitorEnter, Pthread_kill (thread_id tag), RawMonitorExit]\<rparr>))"
proof -
  let ?P = "List.insert (thread_id tag) (pending s)"
  let ?s3 = "emit (Pthread_kill (thread_id tag))
     ((arm_trace tag (RawMonitorEnter_lock s))\<lparr>pending := ?P\<rparr>)"
  have p: "pending ?s3 = ?P" and f: "x_trace_running ?s3"
    and j: "trace_jni (x_trace ?s3) = tag_jni tag"
    by (simp_all add: emit_def arm_trace_def)
  have d: "distinct ?P" using assms(3) by simp
  have others: "\<forall>v \<in> set (pending ?s3). v \<noteq> u \<longrightarrow> handler_delay env thread v \<noteq> Some k"
    using assms(7) by (simp only: p) fastforce
  have due: "run_due env thread k ?s3 =
      signalHandler env u
        (?s3\<lparr>pending := filter (\<lambda>t. handler_delay env thread t \<noteq> Some k) (pending ?s3)\<rparr>)"
    using d assms(4,5) others by (intro run_due_single) (simp_all only: p)
  have n0: "0 < SPIN_LIMIT" by (simp add: SPIN_LIMIT_def)
  have sp: "spin env thread 0 SPIN_LIMIT (signalled env thread tag s) =
      (True, (run_due env thread k ?s3)\<lparr>x_trace_running := True\<rparr>)"
  proof (cases "k = 0")
    case True
    have sg: "signalled env thread tag s = run_due env thread k ?s3"
      unfolding True
      by (simp add: signalled_def pthread_kill_def arm_trace_def RawMonitorEnter_lock_def
          emit_def)
    have "\<not> x_trace_running (run_due env thread k ?s3)"
      unfolding due by (rule signalHandler_clears)
    then show ?thesis unfolding sg using n0 by (intro spin_poll_clear)
  next
    case False
    have "run_due env thread 0 ?s3 = ?s3"
    proof (rule run_due_idle, rule ballI)
      fix t assume "t \<in> set (pending ?s3)"
      then have t: "t \<in> set ?P" by (simp only: p)
      show "handler_delay env thread t \<noteq> Some 0"
      proof (cases "t = u")
        case True
        with assms(5) False show ?thesis by simp
      next
        case False
        with t assms(7) show ?thesis by fastforce
      qed
    qed
    then have sg: "signalled env thread tag s = ?s3"
      by (simp add: signalled_def pthread_kill_def arm_trace_def RawMonitorEnter_lock_def
          emit_def)
    have first: "\<forall>t \<in> set (pending ?s3). \<forall>j. handler_delay env thread t = Some j \<longrightarrow>
        \<not> (0 < j \<and> j < k)"
    proof (intro ballI allI impI)
      fix t j assume t: "t \<in> set (pending ?s3)" "handler_delay env thread t = Some j"
      then have tP: "t \<in> set ?P" by (simp only: p)
      show "\<not> (0 < j \<and> j < k)"
      proof (cases "t = u")
        case True
        with t assms(5) show ?thesis by simp
      next
        case False
        with t tP assms(7) show ?thesis by fastforce
      qed
    qed
    have ex: "\<exists>t \<in> set (pending ?s3). handler_delay env thread t = Some k"
      using assms(4,5) by (simp only: p) blast
    show ?thesis
      unfolding sg using f False assms(6) ex first by (intro spin_first_due) simp_all
  qed
  have hs: "signalHandler env u
        (?s3\<lparr>pending := filter (\<lambda>t. handler_delay env thread t \<noteq> Some k) (pending ?s3)\<rparr>) =
      ?s3\<lparr>pending := filter (\<lambda>t. handler_delay env thread t \<noteq> Some k) ?P,
         x_trace := (x_trace ?s3)\<lparr>num_frames := n,
           frames := store_frames (take MAX_FRAMES fs) (frames (x_trace ?s3))\<rparr>,
         x_trace_running := False\<rparr>"
    using assms(8) j by (subst signalHandler_state [where n = n and fs = fs]) (simp_all add: p)
  have "RawMonitorExit_lock ((run_due env thread k ?s3)\<lparr>x_trace_running := True\<rparr>) =
      s\<lparr>x_trace := \<lparr>trace_jni = tag_jni tag, num_frames = n,
                      frames = store_frames (take MAX_FRAMES fs) (frames (x_trace s))\<rparr>,
          x_trace_running := True,
          pending := filter (\<lambda>t. handler_delay env thread t \<noteq> Some k) ?P,
          events := events s @ [RawMonitorEnter, Pthread_kill (thread_id tag), RawMonitorExit]\<rparr>"
    unfolding due hs
    by (cases s, cases "x_trace s")
       (simp add: RawMonitorExit_lock_def RawMonitorEnter_lock_def emit_def arm_trace_def)
  with sp show ?thesis
    unfolding dumpThread_tagged [OF assms(1,2)] by (simp add: Let_def)
qed

section \<open>The example dump\<close>

lemma demo_frame_lines:
  "printCallFrame demo_jvm 7 (- 3) = TAB @ ''at java.lang.Thread.sleep(Native Method)'' @ NL"
  "printCallFrame demo_jvm 2 5 = TAB @ ''at com.example.Main.run(Main.java:11)'' @ NL"
  by (simp_all add: printCallFrame_def getLineNumber_def demo_jvm_def to_jint_def
      scan_table.simps NATIVE_METHOD_LINENO_def fixClassSignature_def printf_d_def
      show_nat.simps)


lemma demo_header:
  "thread_header \<lparr>name = ''main'', priority = 5, is_daemon = False\<rparr> 0xE1 =
     [CHR 0x22] @ ''main'' @ [CHR 0x22] @ '' prio=5'' @ NL @
     ''  java.lang.Thread.Stage: TIMED_WAITING (sleeping)'' @ NL"
  by (simp add: thread_header_def printf_d_def show_nat.simps threadStateEnum_def
      thread_state_bits)

text \<open>Thread \<open>8\<close> is captured: its handler answers after three polls.\<close>

lemma demo_thread_8:
  assumes "tags s0 8 = Some \<lparr>tag_jni = 5, thread_id = 101\<rparr>" and "distinct (pending s0)"
  shows "fst (dumpThread demo_jvm 8 s0) = Captured \<and>
    events (snd (dumpThread demo_jvm 8 s0)) = events s0 @
     [RawMonitorEnter, Pthread_kill 101, RawMonitorExit,
      Out ([CHR 0x22] @ ''main'' @ [CHR 0x22] @ '' prio=5'' @ NL @
           ''  java.lang.Thread.Stage: TIMED_WAITING (sleeping)'' @ NL),
      Out (TAB @ ''at java.lang.Thread.sleep(Native Method)'' @ NL),
      Out (TAB @ ''at com.example.Main.run(Main.java:11)'' @ NL),
      Out NL]"
proof -
  let ?tag = "\<lparr>tag_jni = 5, thread_id = 101\<rparr>"
  let ?fs = "[\<lparr>lineno = - 3, method_id = 7\<rparr>, \<lparr>lineno = 5, method_id = 2\<rparr>]"
  have d: "dumpThread demo_jvm 8 s0 =
    (Captured, printThreadDump demo_jvm 8
       (s0\<lparr>x_trace := \<lparr>trace_jni = tag_jni ?tag, num_frames = 2,
            frames = store_frames (take MAX_FRAMES ?fs) (frames (x_trace s0))\<rparr>,
          x_trace_running := True,
          pending := filter (\<lambda>t. handler_delay demo_jvm 8 t \<noteq> Some 3)
                       (List.insert (thread_id ?tag) (pending s0)),
          events := events s0 @
            [RawMonitorEnter, Pthread_kill (thread_id ?tag), RawMonitorExit]\<rparr>))"
    using assms
    by (intro dumpThread_captured_by [where u = 101])
       (simp_all add: demo_jvm_def SPIN_LIMIT_def)
  have s: "GetThreadState demo_jvm 8 = Some 0xE1"
    "GetThreadInfo demo_jvm 8 = Some \<lparr>name = ''main'', priority = 5, is_daemon = False\<rparr>"
    by (simp_all add: demo_jvm_def)
  have f: "take 2 (store_frames (take MAX_FRAMES ?fs) buf) = ?fs" for buf
    by (simp add: store_frames_def MAX_FRAMES_def)
  show ?thesis
    unfolding d
    by (simp add: printThreadDump_events s f demo_frame_lines demo_header)
qed

text \<open>Thread \<open>2\<close> has a tag, but its handler does not answer: the capture times out.\<close>

lemma demo_thread_2:
  assumes "tags s0 2 = Some \<lparr>tag_jni = 6, thread_id = 102\<rparr>" and "101 \<notin> set (pending s0)"
  shows "dumpThread demo_jvm 2 s0 =
     (Timeout, s0\<lparr>x_trace := (x_trace s0)\<lparr>trace_jni := 6\<rparr>, x_trace_running := True,
        pending := List.insert 102 (pending s0),
        events := events s0 @ [RawMonitorEnter, Pthread_kill 102, RawMonitorExit,
          Err (''WARNING: AStack trace did not complete'' @ NL)]\<rparr>)"
  using dumpThread_quiet [of demo_jvm 2 s0 "\<lparr>tag_jni = 6, thread_id = 102\<rparr>"] assms
  by (auto simp: demo_jvm_def)

text \<open>The whole dump of the example: threads \<open>3\<close>, \<open>2\<close> and \<open>8\<close>, in this order.\<close>

lemma demo_dump:
  "events (handleClient demo_jvm demo_agent) =
     [RawMonitorEnter, RawMonitorExit,
      RawMonitorEnter, Pthread_kill 102, RawMonitorExit,
      Err (''WARNING: AStack trace did not complete'' @ NL),
      RawMonitorEnter, Pthread_kill 101, RawMonitorExit,
      Out ([CHR 0x22] @ ''main'' @ [CHR 0x22] @ '' prio=5'' @ NL @
           ''  java.lang.Thread.Stage: TIMED_WAITING (sleeping)'' @ NL),
      Out (TAB @ ''at java.lang.Thread.sleep(Native Method)'' @ NL),
      Out (TAB @ ''at com.example.Main.run(Main.java:11)'' @ NL),
      Out NL]"
proof -
  define s1 where "s1 = snd (dumpThread demo_jvm 3 demo_agent)"
  define s2 where "s2 = snd (dumpThread demo_jvm 2 s1)"
  have h: "handleClient demo_jvm demo_agent = snd (dumpThread demo_jvm 8 s2)"
    by (simp add: handleClient_def demo_jvm_def s1_def s2_def)
  have t0: "tags demo_agent 3 = None"
    "tags demo_agent 2 = Some \<lparr>tag_jni = 6, thread_id = 102\<rparr>"
    "tags demo_agent 8 = Some \<lparr>tag_jni = 5, thread_id = 101\<rparr>"
    "pending demo_agent = []"
    by (simp_all add: demo_agent_def)
  have t1: "tags s1 = tags demo_agent" unfolding s1_def by (rule dumpThread_tags)
  have t2: "tags s2 = tags demo_agent" unfolding s2_def using t1 by (simp add: dumpThread_tags)
  have e1: "events s1 = [RawMonitorEnter, RawMonitorExit]" and p1: "pending s1 = []"
    unfolding s1_def using t0 by (simp_all add: dumpThread_unavailable demo_agent_def)
  have e2: "events s2 = events s1 @ [RawMonitorEnter, Pthread_kill 102, RawMonitorExit,
          Err (''WARNING: AStack trace did not complete'' @ NL)]"
    and p2: "pending s2 = [102]"
    unfolding s2_def using demo_thread_2 [of s1] t0(2) t1 p1 by simp_all
  from demo_thread_8 [of s2] t0(3) t2 e1 e2 p2 show ?thesis
    unfolding h by simp
qed


section \<open>The claims about the dump\<close>

text \<open>
  Claim C8. For a thread handle without a tag, \<open>dumpThread\<close> takes the early return: it
  enters and leaves the raw monitor and does nothing else. No signal is sent, and the
  capture slot, the completion flag and the monitor's hold count are as before.
\<close>

theorem dumpThread_no_record:
  assumes "tags s thread = None"
  shows "fst (dumpThread env thread s) = Unavailable \<and>
    events (snd (dumpThread env thread s)) = events s @ [RawMonitorEnter, RawMonitorExit] \<and>
    x_trace (snd (dumpThread env thread s)) = x_trace s \<and>
    x_trace_running (snd (dumpThread env thread s)) = x_trace_running s \<and>
    x_trace_lock (snd (dumpThread env thread s)) = x_trace_lock s"
  using assms by (simp add: dumpThread_unavailable)

theorem dumpThread_no_record_witness:
  "tags demo_agent 3 = None \<and>
   dumpThread demo_jvm 3 demo_agent =
     (Unavailable, demo_agent\<lparr>events := [RawMonitorEnter, RawMonitorExit]\<rparr>)"
proof -
  have t: "tags demo_agent 3 = None" and e: "events demo_agent = []"
    by (simp_all add: demo_agent_def)
  from dumpThread_no_record [OF t, of demo_jvm] e
  have "fst (dumpThread demo_jvm 3 demo_agent) = Unavailable"
    and "snd (dumpThread demo_jvm 3 demo_agent) =
      demo_agent\<lparr>events := [RawMonitorEnter, RawMonitorExit]\<rparr>"
    by (simp_all add: dumpThread_unavailable t)
  with t show ?thesis by (simp add: prod_eq_iff)
qed

text \<open>
  Claim C3, as stated, has the thread header written before the capture, and so also for
  a thread whose capture fails. The code writes the header in \<open>printThreadDump\<close>, which
  runs only after a successful capture. In the example dump the threads \<open>3\<close> (no tag) and
  \<open>2\<close> (time-out) have a readable name and state, and the only header in the output is the
  one of thread \<open>8\<close>.
\<close>

theorem handleClient_no_header_without_capture:
  "GetAllThreads demo_jvm = Inr [3, 2, 8] \<and>
   GetThreadState demo_jvm 3 = Some 0x2 \<and>
   GetThreadInfo demo_jvm 3 = Some \<lparr>name = ''gone'', priority = 5, is_daemon = False\<rparr> \<and>
   GetThreadState demo_jvm 2 = Some 0x401 \<and>
   GetThreadInfo demo_jvm 2 = Some \<lparr>name = ''worker'', priority = 5, is_daemon = True\<rparr> \<and>
   fst (dumpThread demo_jvm 3 demo_agent) = Unavailable \<and>
   outputs (events (snd (dumpThread demo_jvm 3 demo_agent))) = [] \<and>
   fst (dumpThread demo_jvm 2 demo_agent) = Timeout \<and>
   outputs (events (snd (dumpThread demo_jvm 2 demo_agent))) = [] \<and>
   outputs (events (handleClient demo_jvm demo_agent)) =
     [[CHR 0x22] @ ''main'' @ [CHR 0x22] @ '' prio=5'' @ NL @
        ''  java.lang.Thread.Stage: TIMED_WAITING (sleeping)'' @ NL,
      TAB @ ''at java.lang.Thread.sleep(Native Method)'' @ NL,
      TAB @ ''at com.example.Main.run(Main.java:11)'' @ NL,
      NL]"
proof -
  have t: "tags demo_agent 3 = None" "tags demo_agent 2 = Some \<lparr>tag_jni = 6, thread_id = 102\<rparr>"
    and e: "events demo_agent = []" and p: "101 \<notin> set (pending demo_agent)"
    by (simp_all add: demo_agent_def)
  have "GetAllThreads demo_jvm = Inr [3, 2, 8]"
    "GetThreadState demo_jvm 3 = Some 0x2"
    "GetThreadInfo demo_jvm 3 = Some \<lparr>name = ''gone'', priority = 5, is_daemon = False\<rparr>"
    "GetThreadState demo_jvm 2 = Some 0x401"
    "GetThreadInfo demo_jvm 2 = Some \<lparr>name = ''worker'', priority = 5, is_daemon = True\<rparr>"
    by (simp_all add: demo_jvm_def)
  moreover have "fst (dumpThread demo_jvm 3 demo_agent) = Unavailable"
    "outputs (events (snd (dumpThread demo_jvm 3 demo_agent))) = []"
    using t(1) e by (simp_all add: dumpThread_unavailable)
  moreover have "fst (dumpThread demo_jvm 2 demo_agent) = Timeout"
    "outputs (events (snd (dumpThread demo_jvm 2 demo_agent))) = []"
    using demo_thread_2 [OF t(2) p] e by simp_all
  ultimately show ?thesis
    by (simp add: demo_dump)
qed

text \<open>
  Claim C3, amended. \<open>dumpThread\<close> attempts the capture first. When the thread has no
  record it only enters and leaves the monitor; when the capture times out it also sends
  the signal and logs one warning; in both cases nothing is written to the client, not
  even the header. Only after a successful capture does it write the header (if the
  thread's state and info can be read), the frame lines and an empty line, all after the
  signal and after the monitor is left. In every case \<open>handleClient\<close> goes on with the
  threads that follow, from the state this thread's \<open>dumpThread\<close> left.
\<close>

theorem dumpThread_writes_after_capture:
  fixes env :: jvm and thread :: jthread and s :: agent
  defines "r \<equiv> dumpThread env thread s"
    and "header \<equiv> (case GetThreadState env thread of
                     None \<Rightarrow> []
                   | Some state \<Rightarrow> (case GetThreadInfo env thread of
                                      None \<Rightarrow> []
                                    | Some info \<Rightarrow> [thread_header info state]))"
  shows
  "(fst r = Unavailable \<longrightarrow> events (snd r) = events s @ [RawMonitorEnter, RawMonitorExit]) \<and>
   (fst r = Timeout \<longrightarrow>
      (\<exists>t. events (snd r) = events s @
         [RawMonitorEnter, Pthread_kill t, RawMonitorExit,
          Err (''WARNING: AStack trace did not complete'' @ NL)])) \<and>
   (fst r = Captured \<longrightarrow>
      (\<exists>t lines. events (snd r) = events s @
         [RawMonitorEnter, Pthread_kill t, RawMonitorExit] @ map Out (header @ lines @ [NL]))) \<and>
   (fst r \<noteq> Captured \<longrightarrow> outputs (events (snd r)) = outputs (events s)) \<and>
   (GetAllThreads env = Inr (pre @ thread # post) \<longrightarrow>
      handleClient env s0 =
        fold (\<lambda>th s'. snd (dumpThread env th s')) post
          (snd (dumpThread env thread (fold (\<lambda>th s'. snd (dumpThread env th s')) pre s0))))"
proof -
  have dump: "GetAllThreads env = Inr (pre @ thread # post) \<longrightarrow>
      handleClient env s0 =
        fold (\<lambda>th s'. snd (dumpThread env th s')) post
          (snd (dumpThread env thread (fold (\<lambda>th s'. snd (dumpThread env th s')) pre s0)))"
    by (simp add: handleClient_def)
  show ?thesis
  proof (cases "GetTag_ok env thread \<and> tags s thread \<noteq> None")
    case False
    then have "r = (Unavailable, s\<lparr>events := events s @ [RawMonitorEnter, RawMonitorExit]\<rparr>)"
      unfolding r_def by (intro dumpThread_unavailable) auto
    with dump show ?thesis by (simp add: outputs_append)
  next
    case True
    then obtain tag where t: "GetTag_ok env thread" "tags s thread = Some tag" by auto
    from dumpThread_tagged_events [OF t]
    consider (timeout) "fst r = Timeout" "events (snd r) = events s @
        [RawMonitorEnter, Pthread_kill (thread_id tag), RawMonitorExit,
         Err (''WARNING: AStack trace did not complete'' @ NL)]"
      | (captured) "fst r = Captured" "events (snd r) = events s @
        [RawMonitorEnter, Pthread_kill (thread_id tag), RawMonitorExit] @
        map Out (header @
                 map (\<lambda>f. printCallFrame env (method_id f) (lineno f))
                   (take (nat (num_frames (x_trace (snd r)))) (frames (x_trace (snd r)))) @
                 [NL])"
      unfolding r_def header_def by blast
    then show ?thesis
    proof cases
      case timeout
      with dump show ?thesis by (simp add: outputs_append)
    next
      case captured
      then have "fst r = Captured" and "\<exists>t lines. events (snd r) = events s @
         [RawMonitorEnter, Pthread_kill t, RawMonitorExit] @ map Out (header @ lines @ [NL])"
        by blast+
      with dump show ?thesis by simp
    qed
  qed
qed

theorem dumpThread_writes_after_capture_witness:
  "fst (dumpThread demo_jvm 3 demo_agent) = Unavailable \<and>
   events (snd (dumpThread demo_jvm 3 demo_agent)) = [RawMonitorEnter, RawMonitorExit] \<and>
   fst (dumpThread demo_jvm 2 demo_agent) = Timeout \<and>
   outputs (events (snd (dumpThread demo_jvm 2 demo_agent))) = [] \<and>
   GetAllThreads demo_jvm = Inr ([3] @ 2 # [8]) \<and>
   handleClient demo_jvm demo_agent =
     snd (dumpThread demo_jvm 8
       (snd (dumpThread demo_jvm 2 (snd (dumpThread demo_jvm 3 demo_agent)))))"
proof -
  have t: "tags demo_agent 3 = None" "tags demo_agent 2 = Some \<lparr>tag_jni = 6, thread_id = 102\<rparr>"
    and e: "events demo_agent = []" and p: "101 \<notin> set (pending demo_agent)"
    by (simp_all add: demo_agent_def)
  have u: "fst (dumpThread demo_jvm 3 demo_agent) = Unavailable"
    using t(1) by (simp add: dumpThread_unavailable)
  have v: "fst (dumpThread demo_jvm 2 demo_agent) = Timeout"
    using demo_thread_2 [OF t(2) p] by simp
  have g: "GetAllThreads demo_jvm = Inr ([3] @ 2 # [8])"
    by (simp add: demo_jvm_def)
  from dumpThread_writes_after_capture [of demo_jvm 3 demo_agent "[]" "[2, 8]" demo_agent]
    dumpThread_writes_after_capture [of demo_jvm 2 demo_agent "[3]" "[8]" demo_agent]
    u v g e
  show ?thesis by simp
qed

section \<open>The capture slot and the completion flag\<close>







end
